theory Spec2Isabelle
  imports Complex_Main "HOL-Library.Multiset"
begin

section \<open>Cells, frames and the engine\<close>

text \<open>
  The tutorial \<^verbatim>\<open>spark-concepts/salted_joins.md\<close> is a PySpark script: every step is a
  call of the DataFrame API. The columns of the script are of type \<^verbatim>\<open>bigint\<close>
  (\<^verbatim>\<open>id\<close>, \<^verbatim>\<open>count\<close>, \<^verbatim>\<open>number_col\<close>), \<^verbatim>\<open>string\<close> (\<^verbatim>\<open>join_col\<close>, \<^verbatim>\<open>salted_col\<close>) and
  \<^verbatim>\<open>double\<close> (\<^verbatim>\<open>rand\<close>, \<^verbatim>\<open>pct_of_data\<close>). The nested types \<^verbatim>\<open>struct\<close>, \<^verbatim>\<open>array\<close> and
  \<^verbatim>\<open>map\<close> are the column types the implicit cast to text does not accept. A cell is
  null or a value of its column's type. A double cell holds the exact value of the
  double; what the engine computes from doubles is taken from the engine. A bigint is an
  unbounded integer.
\<close>

datatype val =
    Null
  | LongV int
  | StrV string
  | DblV real
  | StructV "val list"
  | ArrayV "val list"
  | MapV "(val \<times> val) list"

datatype dtype = NullT | LongT | StringT | DoubleT | StructT | ArrayT | MapT

datatype error =
    UnresolvedColumn string
  | AmbiguousReference string
  | DataTypeMismatch
  | Unsupported

fun type_of :: "val \<Rightarrow> dtype" where
  "type_of Null = NullT"
| "type_of (LongV i) = LongT"
| "type_of (StrV s) = StringT"
| "type_of (DblV x) = DoubleT"
| "type_of (StructV xs) = StructT"
| "type_of (ArrayV xs) = ArrayT"
| "type_of (MapV kvs) = MapT"

text \<open>
  A DataFrame: the column names and their types in schema order, the rows, each a list
  of cells in the same order, and the sizes of its partitions. The rows are listed
  partition after partition; the engine fixes no order beyond that.
\<close>

record dataframe =
  columns :: "string list"
  dtypes :: "dtype list"
  rows :: "val list list"
  parts :: "nat list"

text \<open>
  What the script takes from the engine without defining it:
  \<^item> the pseudo-random generator behind \<^verbatim>\<open>F.rand\<close>: \<open>prng g k\<close> is draw number \<open>k\<close> of
    a generator started at \<open>g\<close>;
  \<^item> the seed the engine picks by itself when \<^verbatim>\<open>F.rand()\<close> is called without one;
  \<^item> the arithmetic of doubles: the cast of a bigint to double, the product and the
    quotient of two doubles, and \<^verbatim>\<open>F.round\<close> of a double at a number of decimals;
  \<^item> the text the engine prints for a double, and the casts of a text to bigint and to
    double (no value when the text is not a number);
  \<^item> the partition sizes the engine gives to a frame it builds from frames of the
    given partition sizes.
\<close>

record engine =
  prng :: "int \<Rightarrow> nat \<Rightarrow> real"
  entropy :: int
  dlong :: "int \<Rightarrow> real"
  dmul :: "real \<Rightarrow> real \<Rightarrow> real"
  ddiv :: "real \<Rightarrow> real \<Rightarrow> real"
  dround :: "nat \<Rightarrow> real \<Rightarrow> real"
  show_double :: "real \<Rightarrow> string"
  text_to_long :: "string \<Rightarrow> int option"
  text_to_double :: "string \<Rightarrow> real option"
  layout :: "nat list list \<Rightarrow> nat \<Rightarrow> nat list"

subsection \<open>Casting a cell to text\<close>

text \<open>
  A bigint is cast to its decimal text, with a leading \<^verbatim>\<open>-\<close> when negative. \<open>digit\<close>
  is only applied to numbers below ten.
\<close>

definition digit :: "nat \<Rightarrow> char" where
  "digit d = ''0123456789'' ! d"

fun dec_nat :: "nat \<Rightarrow> string" where
  "dec_nat n = (if n < 10 then [digit n] else dec_nat (n div 10) @ [digit (n mod 10)])"

definition cast_long :: "int \<Rightarrow> string" where
  "cast_long i = (if i < 0 then CHR ''-'' # dec_nat (nat (- i)) else dec_nat (nat i))"

text \<open>
  The implicit cast to text exists for null, bigint, text and double. A column of a nested
  type is refused when the expression is analysed (\<open>typeof\<close> below), so a nested cell
  never reaches the cast; the last equation only makes the function total.
\<close>

fun castable :: "dtype \<Rightarrow> bool" where
  "castable NullT = True"
| "castable LongT = True"
| "castable StringT = True"
| "castable DoubleT = True"
| "castable StructT = False"
| "castable ArrayT = False"
| "castable MapT = False"

fun cast_string :: "engine \<Rightarrow> val \<Rightarrow> val" where
  "cast_string en Null = Null"
| "cast_string en (LongV i) = StrV (cast_long i)"
| "cast_string en (StrV s) = StrV s"
| "cast_string en (DblV x) = StrV (show_double en x)"
| "cast_string en v = Null"

text \<open>
  \<^verbatim>\<open>F.concat\<close>: every argument is cast to text implicitly; the result is null as soon as
  one argument is null.
\<close>

fun concat_text :: "val list \<Rightarrow> val" where
  "concat_text [] = StrV []"
| "concat_text (StrV s # vs) = (case concat_text vs of StrV t \<Rightarrow> StrV (s @ t) | _ \<Rightarrow> Null)"
| "concat_text (_ # vs) = Null"

definition F_concat :: "engine \<Rightarrow> val list \<Rightarrow> val" where
  "F_concat en vs = concat_text (map (cast_string en) vs)"

subsection \<open>Column expressions\<close>

text \<open>
  The column expressions the script builds: \<^verbatim>\<open>F.col\<close>, \<^verbatim>\<open>F.lit\<close> (also the Python
  literals the script multiplies and divides by), \<^verbatim>\<open>F.concat\<close>, \<^verbatim>\<open>F.floor\<close>,
  \<^verbatim>\<open>F.rand\<close> with its optional seed, the operators \<^verbatim>\<open>*\<close> and \<^verbatim>\<open>/\<close>, and
  \<^verbatim>\<open>F.round\<close> with its scale.
\<close>

datatype expr =
    Col string
  | Lit val
  | Concat "expr list"
  | Floor expr
  | Rand "int option"
  | Mul expr expr
  | Div expr expr
  | Round expr nat

fun col_refs :: "expr \<Rightarrow> string list" where
  "col_refs (Col c) = [c]"
| "col_refs (Lit v) = []"
| "col_refs (Concat es) = concat (map col_refs es)"
| "col_refs (Floor e) = col_refs e"
| "col_refs (Rand sd) = []"
| "col_refs (Mul a b) = col_refs a @ col_refs b"
| "col_refs (Div a b) = col_refs a @ col_refs b"
| "col_refs (Round e d) = col_refs e"

text \<open>
  A column name is resolved when the expression is attached to a frame, before any row
  is read: a name the frame does not have, or has twice, is an analysis error.
\<close>

definition resolve :: "string list \<Rightarrow> string \<Rightarrow> error option" where
  "resolve cols c =
     (if c \<notin> set cols then Some (UnresolvedColumn c)
      else if count_list cols c \<noteq> 1 then Some (AmbiguousReference c)
      else None)"

fun analyse :: "string list \<Rightarrow> string list \<Rightarrow> error option" where
  "analyse cols [] = None"
| "analyse cols (c # cs) =
     (case resolve cols c of Some e \<Rightarrow> Some e | None \<Rightarrow> analyse cols cs)"

definition cell :: "string list \<Rightarrow> string \<Rightarrow> val list \<Rightarrow> val" where
  "cell cols c r = (case map_of (zip cols r) c of Some v \<Rightarrow> v | None \<Rightarrow> Null)"

definition col_type :: "string list \<Rightarrow> dtype list \<Rightarrow> string \<Rightarrow> dtype" where
  "col_type cols tys c = (case map_of (zip cols tys) c of Some t \<Rightarrow> t | None \<Rightarrow> NullT)"

fun all_ok :: "(error + 'a) list \<Rightarrow> error + 'a list" where
  "all_ok [] = Inr []"
| "all_ok (Inl e # xs) = Inl e"
| "all_ok (Inr v # xs) = (case all_ok xs of Inl e \<Rightarrow> Inl e | Inr vs \<Rightarrow> Inr (v # vs))"

text \<open>
  The type of an expression is found when it is analysed, from the types of the
  columns. \<^verbatim>\<open>F.concat\<close> accepts the types that cast to text and refuses a nested type
  with a data type mismatch (both calls of the script hold the text \<^verbatim>\<open>"-"\<close>, so the
  concatenation of arrays with arrays does not arise). Arithmetic is on numbers; the script applies it to numbers
  only, and a text operand (which the engine would first cast to double) is outside the
  fragment and answered with \<open>Unsupported\<close>.
\<close>

fun numeric :: "dtype \<Rightarrow> error option" where
  "numeric NullT = None"
| "numeric LongT = None"
| "numeric DoubleT = None"
| "numeric StringT = Some Unsupported"
| "numeric t = Some DataTypeMismatch"

fun typeof :: "(string \<Rightarrow> dtype) \<Rightarrow> expr \<Rightarrow> error + dtype" where
  "typeof ty (Col c) = Inr (ty c)"
| "typeof ty (Lit v) = Inr (type_of v)"
| "typeof ty (Concat es) =
     (case all_ok (map (typeof ty) es) of
        Inl e \<Rightarrow> Inl e
      | Inr ts \<Rightarrow> if list_all castable ts then Inr StringT else Inl DataTypeMismatch)"
| "typeof ty (Floor e) =
     (case typeof ty e of
        Inl x \<Rightarrow> Inl x
      | Inr t \<Rightarrow> (case numeric t of Some x \<Rightarrow> Inl x | None \<Rightarrow> Inr LongT))"
| "typeof ty (Rand sd) = Inr DoubleT"
| "typeof ty (Mul a b) =
     (case typeof ty a of
        Inl x \<Rightarrow> Inl x
      | Inr t \<Rightarrow>
         (case typeof ty b of
            Inl x \<Rightarrow> Inl x
          | Inr u \<Rightarrow>
             (case numeric t of
                Some x \<Rightarrow> Inl x
              | None \<Rightarrow>
                 (case numeric u of
                    Some x \<Rightarrow> Inl x
                  | None \<Rightarrow> Inr (if t = LongT \<and> u = LongT then LongT else DoubleT)))))"
| "typeof ty (Div a b) =
     (case typeof ty a of
        Inl x \<Rightarrow> Inl x
      | Inr t \<Rightarrow>
         (case typeof ty b of
            Inl x \<Rightarrow> Inl x
          | Inr u \<Rightarrow>
             (case numeric t of
                Some x \<Rightarrow> Inl x
              | None \<Rightarrow> (case numeric u of Some x \<Rightarrow> Inl x | None \<Rightarrow> Inr DoubleT))))"
| "typeof ty (Round e d) =
     (case typeof ty e of
        Inl x \<Rightarrow> Inl x
      | Inr t \<Rightarrow> (case numeric t of Some x \<Rightarrow> Inl x | None \<Rightarrow> Inr t))"

text \<open>
  Arithmetic on cells is null on a null operand. A bigint operand of a double operation
  is cast to double first. \<^verbatim>\<open>/\<close> is always a division of doubles; dividing by zero
  gives null.
\<close>

fun as_double :: "engine \<Rightarrow> val \<Rightarrow> real option" where
  "as_double en (LongV a) = Some (dlong en a)"
| "as_double en (DblV x) = Some x"
| "as_double en v = None"

fun mul_val :: "engine \<Rightarrow> val \<Rightarrow> val \<Rightarrow> error + val" where
  "mul_val en (LongV a) (LongV b) = Inr (LongV (a * b))"
| "mul_val en a b =
     (if a = Null \<or> b = Null then Inr Null
      else case (as_double en a, as_double en b) of
        (Some x, Some y) \<Rightarrow> Inr (DblV (dmul en x y))
      | _ \<Rightarrow> Inl Unsupported)"

definition div_val :: "engine \<Rightarrow> val \<Rightarrow> val \<Rightarrow> error + val" where
  "div_val en a b =
     (if a = Null \<or> b = Null then Inr Null
      else case (as_double en a, as_double en b) of
        (Some x, Some y) \<Rightarrow> Inr (if y = 0 then Null else DblV (ddiv en x y))
      | _ \<Rightarrow> Inl Unsupported)"

fun floor_val :: "val \<Rightarrow> error + val" where
  "floor_val Null = Inr Null"
| "floor_val (LongV a) = Inr (LongV a)"
| "floor_val (DblV x) = Inr (LongV \<lfloor>x\<rfloor>)"
| "floor_val v = Inl Unsupported"

fun round_val :: "engine \<Rightarrow> nat \<Rightarrow> val \<Rightarrow> error + val" where
  "round_val en d Null = Inr Null"
| "round_val en d (LongV a) = Inr (LongV a)"
| "round_val en d (DblV x) = Inr (DblV (dround en d x))"
| "round_val en d v = Inl Unsupported"

text \<open>
  The value of an expression at a row \<open>r\<close> of a frame with columns \<open>cols\<close>; the row
  is number \<open>snd loc\<close> of partition \<open>fst loc\<close>. \<^verbatim>\<open>F.rand(seed)\<close> starts one generator
  for every partition, at the seed plus the index of the partition, and draws from it
  once for every row of the partition, in order. \<^verbatim>\<open>F.rand()\<close> does the same from the
  seed the engine chose.
\<close>

fun eval ::
  "engine \<Rightarrow> string list \<Rightarrow> nat \<times> nat \<Rightarrow> val list \<Rightarrow> expr \<Rightarrow> error + val" where
  "eval en cols loc r (Col c) = Inr (cell cols c r)"
| "eval en cols loc r (Lit v) = Inr v"
| "eval en cols loc r (Concat es) =
     (case all_ok (map (eval en cols loc r) es) of
        Inl e \<Rightarrow> Inl e
      | Inr vs \<Rightarrow> Inr (F_concat en vs))"
| "eval en cols loc r (Floor e) =
     (case eval en cols loc r e of Inl x \<Rightarrow> Inl x | Inr v \<Rightarrow> floor_val v)"
| "eval en cols loc r (Rand sd) =
     Inr (DblV (prng en ((case sd of Some s \<Rightarrow> s | None \<Rightarrow> entropy en) + int (fst loc))
                  (snd loc)))"
| "eval en cols loc r (Mul a b) =
     (case eval en cols loc r a of
        Inl x \<Rightarrow> Inl x
      | Inr v \<Rightarrow> (case eval en cols loc r b of Inl x \<Rightarrow> Inl x | Inr w \<Rightarrow> mul_val en v w))"
| "eval en cols loc r (Div a b) =
     (case eval en cols loc r a of
        Inl x \<Rightarrow> Inl x
      | Inr v \<Rightarrow> (case eval en cols loc r b of Inl x \<Rightarrow> Inl x | Inr w \<Rightarrow> div_val en v w))"
| "eval en cols loc r (Round e d) =
     (case eval en cols loc r e of Inl x \<Rightarrow> Inl x | Inr v \<Rightarrow> round_val en d v)"

subsection \<open>DataFrame operations\<close>

text \<open>
  The partition and the offset in it of the row in position \<open>p\<close> of the row list, for
  the partition sizes \<open>ns\<close>.
\<close>

fun locate_from :: "nat \<Rightarrow> nat list \<Rightarrow> nat \<Rightarrow> nat \<times> nat" where
  "locate_from i [] p = (i, p)"
| "locate_from i (n # ns) p = (if p < n then (i, p) else locate_from (Suc i) ns (p - n))"

definition locate :: "nat list \<Rightarrow> nat \<Rightarrow> nat \<times> nat" where
  "locate ns p = locate_from 0 ns p"

text \<open>\<^verbatim>\<open>spark.range(n)\<close>: one bigint column \<^verbatim>\<open>id\<close> holding \<open>0, ..., n - 1\<close>.\<close>

definition range_df :: "engine \<Rightarrow> int \<Rightarrow> dataframe" where
  "range_df en n =
     \<lparr>columns = [''id''], dtypes = [LongT],
      rows = map (\<lambda>i. [LongV (int i)]) [0..<nat n],
      parts = layout en [] (nat n)\<rparr>"

text \<open>
  \<^verbatim>\<open>df.withColumn(name, e)\<close>: the expression is analysed against the frame's schema
  (names, then types), then evaluated on every row. A column of that name is replaced in
  place, otherwise the new column comes last. The partitions stay as they are.
\<close>

definition put_cell :: "string list \<Rightarrow> string \<Rightarrow> 'a list \<Rightarrow> 'a \<Rightarrow> 'a list" where
  "put_cell cols name r v =
     (if name \<in> set cols then map (\<lambda>(c, x). if c = name then v else x) (zip cols r)
      else r @ [v])"

definition withColumn :: "engine \<Rightarrow> string \<Rightarrow> expr \<Rightarrow> dataframe \<Rightarrow> error + dataframe" where
  "withColumn en name e df =
     (case analyse (columns df) (col_refs e) of
        Some err \<Rightarrow> Inl err
      | None \<Rightarrow>
         (case typeof (col_type (columns df) (dtypes df)) e of
            Inl err \<Rightarrow> Inl err
          | Inr t \<Rightarrow>
             (case all_ok (map (\<lambda>(p, r). eval en (columns df) (locate (parts df) p) r e)
                             (enumerate 0 (rows df))) of
                Inl err \<Rightarrow> Inl err
              | Inr vs \<Rightarrow>
                  Inr \<lparr>columns = (if name \<in> set (columns df) then columns df
                                  else columns df @ [name]),
                       dtypes = put_cell (columns df) name (dtypes df) t,
                       rows = map (\<lambda>(r, v). put_cell (columns df) name r v) (zip (rows df) vs),
                       parts = parts df\<rparr>)))"

text \<open>\<^verbatim>\<open>a.crossJoin(b)\<close>: every row of \<open>a\<close> followed by every row of \<open>b\<close>.\<close>

definition crossJoin :: "engine \<Rightarrow> dataframe \<Rightarrow> dataframe \<Rightarrow> dataframe" where
  "crossJoin en a b =
     \<lparr>columns = columns a @ columns b,
      dtypes = dtypes a @ dtypes b,
      rows = concat (map (\<lambda>r. map (\<lambda>q. r @ q) (rows b)) (rows a)),
      parts = layout en [parts a, parts b] (length (rows a) * length (rows b))\<rparr>"

text \<open>
  \<^verbatim>\<open>df.drop(names...)\<close>: the columns with one of the names are removed; a name the frame
  does not have is ignored. \<open>without names cols xs\<close> removes from \<open>xs\<close> the positions
  whose column is named.
\<close>

definition without :: "string list \<Rightarrow> string list \<Rightarrow> 'a list \<Rightarrow> 'a list" where
  "without names cols xs = map snd (filter (\<lambda>(c, x). c \<notin> set names) (zip cols xs))"

definition drop_cols :: "string list \<Rightarrow> dataframe \<Rightarrow> dataframe" where
  "drop_cols names df =
     \<lparr>columns = without names (columns df) (columns df),
      dtypes = without names (columns df) (dtypes df),
      rows = map (without names (columns df)) (rows df),
      parts = parts df\<rparr>"

text \<open>
  The two join columns are compared in a common type. Columns of one type are compared
  as they are (maps cannot be compared). A text column against a bigint column is cast
  to bigint, a text or bigint column against a double column to double; a text that is
  not a number becomes null.
\<close>

definition common_type :: "dtype \<Rightarrow> dtype \<Rightarrow> dtype option" where
  "common_type t u =
     (if t = MapT \<or> u = MapT then None
      else if t = u then Some t
      else if t = NullT then Some u
      else if u = NullT then Some t
      else if {t, u} = {StringT, LongT} then Some LongT
      else if {t, u} = {StringT, DoubleT} \<or> {t, u} = {LongT, DoubleT} then Some DoubleT
      else None)"

fun cast_to :: "engine \<Rightarrow> dtype \<Rightarrow> val \<Rightarrow> val" where
  "cast_to en LongT (StrV s) = (case text_to_long en s of Some i \<Rightarrow> LongV i | None \<Rightarrow> Null)"
| "cast_to en DoubleT (StrV s) = (case text_to_double en s of Some x \<Rightarrow> DblV x | None \<Rightarrow> Null)"
| "cast_to en DoubleT (LongV i) = DblV (dlong en i)"
| "cast_to en t v = v"

text \<open>
  \<^verbatim>\<open>a.join(b, on=c, how="left")\<close>: the join column comes first and once, then the other
  columns of \<open>a\<close>, then the other columns of \<open>b\<close>. Every row of \<open>a\<close> is paired with
  the rows of \<open>b\<close> whose join cell, cast to the common type \<open>t\<close>, is equal to its own
  and not null; a row of \<open>a\<close> with no partner is kept once, with nulls for the columns of
  \<open>b\<close>. The join column of the result holds the cell of \<open>a\<close>.
\<close>

definition partners :: "engine \<Rightarrow> dtype \<Rightarrow> string \<Rightarrow> dataframe \<Rightarrow> val \<Rightarrow> val list list" where
  "partners en t c b k =
     filter (\<lambda>q. cast_to en t k \<noteq> Null \<and> cast_to en t (cell (columns b) c q) = cast_to en t k)
       (rows b)"

definition join_rows :: "engine \<Rightarrow> dtype \<Rightarrow> string \<Rightarrow> dataframe \<Rightarrow> dataframe \<Rightarrow> val list list" where
  "join_rows en t c a b =
     concat (map (\<lambda>r.
         let k = cell (columns a) c r;
             keep = without [c] (columns a) r;
             ms = partners en t c b k
         in if ms = []
            then [k # keep @ replicate (length (without [c] (columns b) (columns b))) Null]
            else map (\<lambda>q. k # keep @ without [c] (columns b) q) ms)
       (rows a))"

definition join_left :: "engine \<Rightarrow> string \<Rightarrow> dataframe \<Rightarrow> dataframe \<Rightarrow> error + dataframe" where
  "join_left en c a b =
     (case resolve (columns a) c of
        Some err \<Rightarrow> Inl err
      | None \<Rightarrow>
         (case resolve (columns b) c of
            Some err \<Rightarrow> Inl err
          | None \<Rightarrow>
             (case common_type (col_type (columns a) (dtypes a) c)
                               (col_type (columns b) (dtypes b) c) of
                None \<Rightarrow> Inl DataTypeMismatch
              | Some t \<Rightarrow>
                  Inr \<lparr>columns = c # without [c] (columns a) (columns a)
                                    @ without [c] (columns b) (columns b),
                       dtypes = col_type (columns a) (dtypes a) c
                                  # without [c] (columns a) (dtypes a)
                                  @ without [c] (columns b) (dtypes b),
                       rows = join_rows en t c a b,
                       parts = layout en [parts a, parts b]
                                 (length (join_rows en t c a b))\<rparr>)))"


text \<open>
  \<^verbatim>\<open>df.select(names...)\<close>: the named columns in the order given. The script does not
  call it; it is the projection used to compare two frames column by column.
\<close>

definition select :: "string list \<Rightarrow> dataframe \<Rightarrow> error + dataframe" where
  "select names df =
     (case analyse (columns df) names of
        Some err \<Rightarrow> Inl err
      | None \<Rightarrow>
          Inr \<lparr>columns = names,
               dtypes = map (col_type (columns df) (dtypes df)) names,
               rows = map (\<lambda>r. map (\<lambda>c. cell (columns df) c r) names) (rows df),
               parts = parts df\<rparr>)"

section \<open>The script\<close>


text \<open>Line 130: \<^verbatim>\<open>joined_df = skewed_df.join(small_df, on="join_col", how="left")\<close>\<close>

definition joined_df :: "engine \<Rightarrow> dataframe \<Rightarrow> dataframe \<Rightarrow> error + dataframe" where
  "joined_df en skewed_df small_df = join_left en ''join_col'' skewed_df small_df"

text \<open>
  Lines 232 to 237, the skewed side:
  \<^verbatim>\<open>skewed_df.withColumn("salted_col",
       F.concat(F.col("join_col"), F.lit("-"), F.floor(F.rand(seed_no) * salt_count)))\<close>
\<close>

definition skewed_salted :: "engine \<Rightarrow> int \<Rightarrow> int \<Rightarrow> dataframe \<Rightarrow> error + dataframe" where
  "skewed_salted en seed_no salt_count skewed_df =
     withColumn en ''salted_col''
       (Concat [Col ''join_col'', Lit (StrV ''-''),
                Floor (Mul (Rand (Some seed_no)) (Lit (LongV salt_count)))])
       skewed_df"

text \<open>Line 293: \<^verbatim>\<open>salt_df = spark.range(salt_count)\<close>\<close>

definition salt_df :: "engine \<Rightarrow> int \<Rightarrow> dataframe" where
  "salt_df en salt_count = range_df en salt_count"

text \<open>
  Lines 305 to 313, the small side:
  \<^verbatim>\<open>small_df.crossJoin(salt_df)
     .withColumn("salted_col", F.concat(F.col("join_col"), F.lit("-"), F.col("id")))
     .drop("id", "join_col")\<close>
\<close>

definition small_df_salted :: "engine \<Rightarrow> int \<Rightarrow> dataframe \<Rightarrow> error + dataframe" where
  "small_df_salted en salt_count small_df =
     (case withColumn en ''salted_col''
             (Concat [Col ''join_col'', Lit (StrV ''-''), Col ''id''])
             (crossJoin en small_df (salt_df en salt_count)) of
        Inl err \<Rightarrow> Inl err
      | Inr d \<Rightarrow> Inr (drop_cols [''id'', ''join_col''] d))"

text \<open>
  Line 362:
  \<^verbatim>\<open>salted_join_df = skewed_df.join(small_df_salted, on="salted_col", how="left")\<close>
  where \<^verbatim>\<open>skewed_df\<close> is by now the salted frame of line 232.
\<close>

definition salted_join_df ::
  "engine \<Rightarrow> int \<Rightarrow> int \<Rightarrow> dataframe \<Rightarrow> dataframe \<Rightarrow> error + dataframe" where
  "salted_join_df en seed_no salt_count skewed_df small_df =
     (case skewed_salted en seed_no salt_count skewed_df of
        Inl err \<Rightarrow> Inl err
      | Inr a \<Rightarrow>
         (case small_df_salted en salt_count small_df of
            Inl err \<Rightarrow> Inl err
          | Inr b \<Rightarrow> join_left en ''salted_col'' a b))"

section \<open>Vocabulary of the statements\<close>

text \<open>
  A cell has the type of its column when it is null or a value of that type. A frame is
  well formed when its column names are distinct, every column has a type, every row has
  one cell per column and every cell has the type of its column. The frames the script
  starts from are of this kind.
\<close>

definition has_type :: "dtype \<Rightarrow> val \<Rightarrow> bool" where
  "has_type t v \<longleftrightarrow> v = Null \<or> type_of v = t"

definition wf_df :: "dataframe \<Rightarrow> bool" where
  "wf_df df \<longleftrightarrow>
     distinct (columns df) \<and> length (dtypes df) = length (columns df)
     \<and> (\<forall>r \<in> set (rows df). length r = length (columns df)
                               \<and> list_all2 has_type (dtypes df) r)"

definition key_type :: "dataframe \<Rightarrow> dtype" where
  "key_type df = col_type (columns df) (dtypes df) ''join_col''"

text \<open>
  The value of \<^verbatim>\<open>F.concat(key, F.lit("-"), index)\<close>, the expression both sides of the
  script build their \<^verbatim>\<open>salted_col\<close> with.
\<close>

definition salted_key :: "engine \<Rightarrow> val \<Rightarrow> int \<Rightarrow> val" where
  "salted_key en k i = F_concat en [k, StrV ''-'', LongV i]"

text \<open>
  The salt index of the row in position \<open>p\<close> of the skewed frame, as line 237 computes
  it: the floor of the double product of the row's draw and the salt count.
\<close>

definition draw :: "engine \<Rightarrow> int \<Rightarrow> dataframe \<Rightarrow> nat \<Rightarrow> real" where
  "draw en seed_no df p =
     prng en (seed_no + int (fst (locate (parts df) p))) (snd (locate (parts df) p))"

definition salt_index :: "engine \<Rightarrow> int \<Rightarrow> int \<Rightarrow> dataframe \<Rightarrow> nat \<Rightarrow> int" where
  "salt_index en seed_no salt_count df p =
     \<lfloor>dmul en (draw en seed_no df p) (dlong en salt_count)\<rfloor>"

text \<open>
  The key columns of two frames are of one type when both have the same type, text or
  bigint. The script's \<^verbatim>\<open>join_col\<close> is text on both sides.
\<close>

definition same_key_type :: "dataframe \<Rightarrow> dataframe \<Rightarrow> bool" where
  "same_key_type a b \<longleftrightarrow>
     key_type a = key_type b \<and> (key_type a = StringT \<or> key_type a = LongT)"


section \<open>The data of the tutorial\<close>

text \<open>
  \<^verbatim>\<open>small_df\<close> as lines 110 to 116 create it, a frame of the shape of \<^verbatim>\<open>skewed_df\<close>
  (lines 53 to 58: an \<^verbatim>\<open>id\<close> and a letter, most letters \<^verbatim>\<open>E\<close>) cut down to eight
  rows in one partition, and an engine for the examples. Its generator walks through the
  tenths, its double arithmetic is exact and rounds half up, and it reads a text of
  decimal digits, with or without a sign, as that number. On the numbers of the examples
  the double arithmetic of the real engine gives the same values.
\<close>

definition small_df_ex :: dataframe where
  "small_df_ex =
     \<lparr>columns = [''join_col'', ''number_col''],
      dtypes = [StringT, LongT],
      rows = [ [StrV ''A'', LongV 1], [StrV ''B'', LongV 2], [StrV ''C'', LongV 3],
              [StrV ''D'', LongV 4], [StrV ''E'', LongV 5]],
      parts = [5]\<rparr>"

definition skewed_df_ex :: dataframe where
  "skewed_df_ex =
     \<lparr>columns = [''id'', ''join_col''],
      dtypes = [LongT, StringT],
      rows = [ [LongV 0, StrV ''A''], [LongV 1, StrV ''B''], [LongV 2, StrV ''C''],
              [LongV 3, StrV ''D''], [LongV 4, StrV ''E''], [LongV 5, StrV ''E''],
              [LongV 6, StrV ''E''], [LongV 7, StrV ''E'']],
      parts = [8]\<rparr>"

definition round_half_up :: "nat \<Rightarrow> real \<Rightarrow> real" where
  "round_half_up d x =
     (if 0 \<le> x then of_int \<lfloor>x * 10 ^ d + 1 / 2\<rfloor> / 10 ^ d
      else - (of_int \<lfloor>- x * 10 ^ d + 1 / 2\<rfloor> / 10 ^ d))"

fun digits_value :: "nat \<Rightarrow> string \<Rightarrow> nat option" where
  "digits_value acc [] = Some acc"
| "digits_value acc (c # cs) =
     (case map_of (zip ''0123456789'' [0..<10]) c of
        None \<Rightarrow> None
      | Some d \<Rightarrow> digits_value (10 * acc + d) cs)"

definition numeral_value :: "string \<Rightarrow> int option" where
  "numeral_value s =
     (case s of
        [] \<Rightarrow> None
      | c # cs \<Rightarrow>
          if c = CHR ''-'' then (if cs = [] then None
                                 else map_option (\<lambda>n. - int n) (digits_value 0 cs))
          else if c = CHR ''+'' then (if cs = [] then None
                                      else map_option int (digits_value 0 cs))
          else map_option int (digits_value 0 s))"

definition engine_ex :: engine where
  "engine_ex =
     \<lparr>prng = (\<lambda>g k. real_of_int ((g + 7 * int k) mod 10) / 10),
      entropy = 0,
      dlong = of_int,
      dmul = (\<lambda>x y. x * y),
      ddiv = (\<lambda>x y. x / y),
      dround = round_half_up,
      show_double = (\<lambda>x. ''double''),
      text_to_long = numeral_value,
      text_to_double = (\<lambda>s. map_option of_int (numeral_value s)),
      layout = (\<lambda>ns n. [n])\<rparr>"

section \<open>Decimal text\<close>

declare dec_nat.simps [simp del]

lemma digit_not_dash: "d < 10 \<Longrightarrow> digit d \<noteq> CHR ''-''"
  unfolding digit_def
  by (auto simp: less_Suc_eq numeral_eq_Suc nth_Cons')

lemma dash_notin_dec_nat: "CHR ''-'' \<notin> set (dec_nat n)"
proof (induction n rule: dec_nat.induct)
  case (1 n)
  show ?case
  proof (cases "n < 10")
    case True
    then show ?thesis
      using digit_not_dash [of n] by (subst dec_nat.simps) auto
  next
    case False
    have "n mod 10 < 10" by simp
    then have "digit (n mod 10) \<noteq> CHR ''-''" by (rule digit_not_dash)
    with False 1 show ?thesis by (subst dec_nat.simps) auto
  qed
qed

lemma digit_inj: "a < 10 \<Longrightarrow> b < 10 \<Longrightarrow> digit a = digit b \<Longrightarrow> a = b"
  unfolding digit_def
  by (auto simp: less_Suc_eq numeral_eq_Suc nth_Cons')

lemma dec_nat_not_Nil: "dec_nat n \<noteq> []"
  by (subst dec_nat.simps) simp

lemma dec_nat_small: "n < 10 \<Longrightarrow> dec_nat n = [digit n]"
  by (subst dec_nat.simps) simp

lemma dec_nat_big: "\<not> n < 10 \<Longrightarrow> dec_nat n = dec_nat (n div 10) @ [digit (n mod 10)]"
  by (subst dec_nat.simps) simp

lemma dec_nat_inj: "dec_nat a = dec_nat b \<Longrightarrow> a = b"
proof (induction a arbitrary: b rule: dec_nat.induct)
  case (1 a)
  show ?case
  proof (cases "a < 10")
    case True
    note a = this
    show ?thesis
    proof (cases "b < 10")
      case True
      with a "1.prems" show ?thesis
        by (simp add: dec_nat_small digit_inj)
    next
      case False
      with a "1.prems" dec_nat_not_Nil [of "b div 10"] show ?thesis
        by (auto simp add: dec_nat_small dec_nat_big)
    qed
  next
    case False
    note a = this
    show ?thesis
    proof (cases "b < 10")
      case True
      with a "1.prems" dec_nat_not_Nil [of "a div 10"] show ?thesis
        by (auto simp add: dec_nat_small dec_nat_big)
    next
      case False
      with a "1.prems" have e: "dec_nat (a div 10) = dec_nat (b div 10)"
        and d: "digit (a mod 10) = digit (b mod 10)"
        by (simp_all add: dec_nat_big)
      from "1.IH" [OF a e] have "a div 10 = b div 10" .
      moreover from d have "a mod 10 = b mod 10" by (simp add: digit_inj)
      ultimately show ?thesis by (metis div_mult_mod_eq)
    qed
  qed
qed

lemma dash_notin_cast_long: "0 \<le> i \<Longrightarrow> CHR ''-'' \<notin> set (cast_long i)"
  by (simp add: cast_long_def dash_notin_dec_nat)

lemma cast_long_inj: "cast_long a = cast_long b \<Longrightarrow> a = b"
proof -
  assume e: "cast_long a = cast_long b"
  have neg: "\<And>n m. CHR ''-'' # dec_nat n \<noteq> dec_nat m"
    using dash_notin_dec_nat by (metis list.set_intros(1))
  show ?thesis
  proof (cases "a < 0")
    case True
    note a = this
    show ?thesis
    proof (cases "b < 0")
      case True
      with a e have "dec_nat (nat (- a)) = dec_nat (nat (- b))" by (simp add: cast_long_def)
      then have "nat (- a) = nat (- b)" by (rule dec_nat_inj)
      with a True show ?thesis by simp
    next
      case False
      with a e neg show ?thesis by (simp add: cast_long_def)
    qed
  next
    case False
    note a = this
    show ?thesis
    proof (cases "b < 0")
      case True
      with a e neg [of "nat (- b)" "nat a"] show ?thesis by (simp add: cast_long_def)
    next
      case False
      with a e have "dec_nat (nat a) = dec_nat (nat b)" by (simp add: cast_long_def)
      then have "nat a = nat b" by (rule dec_nat_inj)
      with a False show ?thesis by simp
    qed
  qed
qed

lemma split_at_last:
  "c \<notin> set x \<Longrightarrow> c \<notin> set y \<Longrightarrow> a @ c # x = b @ c # y \<Longrightarrow> a = b \<and> x = y"
proof (induction a arbitrary: b)
  case Nil
  then show ?case by (cases b) auto
next
  case (Cons a0 a)
  then show ?case by (cases b) auto
qed

lemma salted_text_inj:
  assumes "0 \<le> i" "0 \<le> j" "k1 @ ''-'' @ cast_long i = k2 @ ''-'' @ cast_long j"
  shows "k1 = k2 \<and> i = j"
proof -
  from assms have "k1 = k2 \<and> cast_long i = cast_long j"
    by (intro split_at_last [of "CHR ''-''"]) (simp_all add: dash_notin_cast_long)
  then show ?thesis by (simp add: cast_long_inj)
qed

section \<open>Frames\<close>

lemma all_ok_map_Inr: "all_ok (map (\<lambda>x. Inr (f x)) xs) = Inr (map f xs)"
  by (induction xs) simp_all

lemma count_list_distinct: "distinct xs \<Longrightarrow> x \<in> set xs \<Longrightarrow> count_list xs x = 1"
  by (induction xs) auto

lemma resolve_distinct: "distinct cols \<Longrightarrow> c \<in> set cols \<Longrightarrow> resolve cols c = None"
  by (simp add: resolve_def count_list_distinct)

lemma zip_enumerate_map:
  "map (\<lambda>(r, v). h r v) (zip xs (map g (enumerate n xs)))
     = map (\<lambda>(p, r). h r (g (p, r))) (enumerate n xs)"
  by (induction xs arbitrary: n) simp_all

lemma put_cell_new: "name \<notin> set cols \<Longrightarrow> put_cell cols name = (\<lambda>r v. r @ [v])"
  by (intro ext) (simp add: put_cell_def)

lemma withColumn_new_rows:
  assumes "analyse (columns df) (col_refs e) = None"
    and "typeof (col_type (columns df) (dtypes df)) e = Inr t"
    and "\<And>p r. r \<in> set (rows df) \<Longrightarrow>
            eval en (columns df) (locate (parts df) p) r e = Inr (f p r)"
    and "name \<notin> set (columns df)"
  shows "withColumn en name e df =
           Inr \<lparr>columns = columns df @ [name],
                dtypes = dtypes df @ [t],
                rows = map (\<lambda>(p, r). r @ [f p r]) (enumerate 0 (rows df)),
                parts = parts df\<rparr>"
proof -
  have "map (\<lambda>(p, r). eval en (columns df) (locate (parts df) p) r e) (enumerate 0 (rows df))
          = map (\<lambda>x. Inr (case x of (p, r) \<Rightarrow> f p r)) (enumerate 0 (rows df))"
    by (rule map_cong [OF refl]) (auto simp: assms(3) in_set_enumerate_eq)
  then have "all_ok (map (\<lambda>(p, r). eval en (columns df) (locate (parts df) p) r e)
                       (enumerate 0 (rows df)))
          = Inr (map (\<lambda>(p, r). f p r) (enumerate 0 (rows df)))"
    by (simp only: all_ok_map_Inr)
  moreover have "map (\<lambda>(r, v). put_cell (columns df) name r v)
                  (zip (rows df) (map (\<lambda>(p, r). f p r) (enumerate 0 (rows df))))
          = map (\<lambda>(p, r). r @ [f p r]) (enumerate 0 (rows df))"
    using assms(4) by (simp add: zip_enumerate_map put_cell_new)
  ultimately show ?thesis
    using assms(1,2,4) by (simp add: withColumn_def put_cell_new)
qed

lemma eval_skewed_key:
  "eval en cols loc r
     (Concat [Col ''join_col'', Lit (StrV ''-''),
              Floor (Mul (Rand (Some seed_no)) (Lit (LongV salt_count)))])
     = Inr (salted_key en (cell cols ''join_col'' r)
              \<lfloor>dmul en (prng en (seed_no + int (fst loc)) (snd loc)) (dlong en salt_count)\<rfloor>)"
  by (simp add: salted_key_def)

lemma typeof_skewed_key:
  "typeof ty
     (Concat [Col ''join_col'', Lit (StrV ''-''),
              Floor (Mul (Rand (Some seed_no)) (Lit (LongV salt_count)))])
     = (if castable (ty ''join_col'') then Inr StringT else Inl DataTypeMismatch)"
  by simp

lemma eval_small_key:
  "eval en cols loc r (Concat [Col ''join_col'', Lit (StrV ''-''), Col ''id''])
     = Inr (F_concat en [cell cols ''join_col'' r, StrV ''-'', cell cols ''id'' r])"
  by simp

lemma typeof_small_key:
  "typeof ty (Concat [Col ''join_col'', Lit (StrV ''-''), Col ''id''])
     = (if castable (ty ''join_col'') \<and> castable (ty ''id'') then Inr StringT
        else Inl DataTypeMismatch)"
  by simp

lemma skewed_salted_eq:
  assumes "distinct (columns df)" "''join_col'' \<in> set (columns df)"
    "''salted_col'' \<notin> set (columns df)" "castable (key_type df)"
  shows "skewed_salted en seed_no salt_count df =
           Inr \<lparr>columns = columns df @ [''salted_col''],
                dtypes = dtypes df @ [StringT],
                rows = map (\<lambda>(p, r). r @ [salted_key en (cell (columns df) ''join_col'' r)
                                              (salt_index en seed_no salt_count df p)])
                         (enumerate 0 (rows df)),
                parts = parts df\<rparr>"
  unfolding skewed_salted_def
proof (rule withColumn_new_rows)
  show "typeof (col_type (columns df) (dtypes df))
          (Concat [Col ''join_col'', Lit (StrV ''-''),
                   Floor (Mul (Rand (Some seed_no)) (Lit (LongV salt_count)))]) = Inr StringT"
    using assms(4) by (simp only: typeof_skewed_key key_type_def if_True)
qed (simp_all add: assms resolve_distinct eval_skewed_key salt_index_def draw_def del: eval.simps)

lemma map_enumerate_snd: "map (\<lambda>(p, r). h r) (enumerate n xs) = map h xs"
  by (induction xs arbitrary: n) simp_all

lemma cell_append_left:
  "length r = length cols \<Longrightarrow> c \<in> set cols \<Longrightarrow> cell (cols @ cs) c (r @ vs) = cell cols c r"
proof -
  assume l: "length r = length cols" and c: "c \<in> set cols"
  have "map_of (zip cols r) c \<noteq> None"
    using map_of_zip_is_None [OF l [symmetric], of c] c by simp
  then obtain v where v: "map_of (zip cols r) c = Some v"
    by blast
  show ?thesis
    using l by (simp add: cell_def map_add_def v)
qed

lemma cell_append_right:
  "length r = length cols \<Longrightarrow> c \<notin> set cols \<Longrightarrow> cell (cols @ cs) c (r @ vs) = cell cs c vs"
proof -
  assume l: "length r = length cols" and c: "c \<notin> set cols"
  have n: "map_of (zip cols r) c = None"
    using map_of_zip_is_None [OF l [symmetric], of c] c by simp
  show ?thesis
    using l by (simp add: cell_def map_add_def n)
qed

lemma cell_single: "cell (c # cs) c (v # vs) = v"
  by (simp add: cell_def)

lemma col_type_append_left:
  "length ts = length cols \<Longrightarrow> c \<in> set cols \<Longrightarrow>
     col_type (cols @ cs) (ts @ us) c = col_type cols ts c"
proof -
  assume l: "length ts = length cols" and c: "c \<in> set cols"
  have "map_of (zip cols ts) c \<noteq> None"
    using map_of_zip_is_None [OF l [symmetric], of c] c by simp
  then obtain v where v: "map_of (zip cols ts) c = Some v"
    by blast
  show ?thesis
    using l by (simp add: col_type_def map_add_def v)
qed

lemma col_type_append_right:
  "length ts = length cols \<Longrightarrow> c \<notin> set cols \<Longrightarrow>
     col_type (cols @ cs) (ts @ us) c = col_type cs us c"
proof -
  assume l: "length ts = length cols" and c: "c \<notin> set cols"
  have n: "map_of (zip cols ts) c = None"
    using map_of_zip_is_None [OF l [symmetric], of c] c by simp
  show ?thesis
    using l by (simp add: col_type_def map_add_def n)
qed

lemma col_type_single: "col_type (c # cs) (t # ts) c = t"
  by (simp add: col_type_def)

lemma col_type_last:
  "length ts = length cols \<Longrightarrow> c \<notin> set cols \<Longrightarrow> col_type (cols @ [c]) (ts @ [t]) c = t"
  by (simp add: col_type_append_right col_type_single)

lemma without_append:
  "length xs = length cols \<Longrightarrow>
     without names (cols @ cs) (xs @ ys) = without names cols xs @ without names cs ys"
  by (simp add: without_def)

lemma without_Cons:
  "without names (c # cs) (x # xs) =
     (if c \<in> set names then without names cs xs else x # without names cs xs)"
  by (simp add: without_def)

lemma without_Nil: "without names [] xs = []"
  by (simp add: without_def)

lemma without_more:
  "n \<notin> set cols \<Longrightarrow> without (n # names) cols xs = without names cols xs"
  unfolding without_def
  by (rule arg_cong [where f = "map snd"], rule filter_cong) (auto dest: set_zip_leftD)

lemma without_none:
  "length xs = length cols \<Longrightarrow> set names \<inter> set cols = {} \<Longrightarrow> without names cols xs = xs"
proof -
  assume l: "length xs = length cols" and d: "set names \<inter> set cols = {}"
  have "filter (\<lambda>(c, x). c \<notin> set names) (zip cols xs) = zip cols xs"
    using d by (auto simp: filter_id_conv dest: set_zip_leftD)
  with l show ?thesis by (simp add: without_def)
qed

lemma length_without:
  "length xs = length cols \<Longrightarrow> length (without names cols xs) = length (without names cols cols)"
proof (induction cols arbitrary: xs)
  case Nil
  then show ?case by (simp add: without_def)
next
  case (Cons c cols)
  then obtain x xs' where "xs = x # xs'" by (cases xs) auto
  with Cons show ?case by (simp add: without_Cons)
qed

lemma without_self: "without names cols cols = filter (\<lambda>c. c \<notin> set names) cols"
  by (induction cols) (simp_all add: without_Nil without_Cons)

lemma distinct_without: "distinct cols \<Longrightarrow> distinct (without names cols cols)"
  by (simp add: without_self)

lemma set_without: "set (without names cols cols) = set cols - set names"
  by (auto simp: without_self)

lemma without_last:
  "length r = length cols \<Longrightarrow> c \<notin> set cols \<Longrightarrow> without [c] (cols @ [c]) (r @ [v]) = r"
  by (simp add: without_append without_Cons without_Nil without_none)

lemma cell_last:
  "length r = length cols \<Longrightarrow> c \<notin> set cols \<Longrightarrow> cell (cols @ [c]) c (r @ [v]) = v"
  by (simp add: cell_append_right cell_single)

lemma crossJoin_salt_df:
  "crossJoin en df (salt_df en S) =
     \<lparr>columns = columns df @ [''id''],
      dtypes = dtypes df @ [LongT],
      rows = map (\<lambda>(q, j). q @ [LongV (int j)]) (List.product (rows df) [0..<nat S]),
      parts = layout en [parts df, layout en [] (nat S)] (length (rows df) * nat S)\<rparr>"
proof -
  have "\<And>xs js. concat (map (\<lambda>r. map ((@) r) (map (\<lambda>i. [LongV (int i)]) js)) xs)
          = map (\<lambda>(q, j). q @ [LongV (int j)]) (List.product xs js)"
    subgoal for xs js by (induction xs) (simp_all add: comp_def)
    done
  then show ?thesis by (simp add: crossJoin_def salt_df_def range_df_def)
qed

lemma small_df_salted_eq:
  assumes wf: "wf_df df" and jc: "''join_col'' \<in> set (columns df)"
    and sc: "''salted_col'' \<notin> set (columns df)" and id: "''id'' \<notin> set (columns df)"
    and ct: "castable (key_type df)"
  shows "small_df_salted en S df =
           Inr \<lparr>columns = without [''join_col''] (columns df) (columns df) @ [''salted_col''],
                dtypes = without [''join_col''] (columns df) (dtypes df) @ [StringT],
                rows = map (\<lambda>(q, j). without [''join_col''] (columns df) q
                                        @ [salted_key en (cell (columns df) ''join_col'' q) (int j)])
                         (List.product (rows df) [0..<nat S]),
                parts = layout en [parts df, layout en [] (nat S)] (length (rows df) * nat S)\<rparr>"
proof -
  let ?cols = "columns df" and ?tys = "dtypes df"
  let ?x = "crossJoin en df (salt_df en S)"
  let ?e = "Concat [Col ''join_col'', Lit (StrV ''-''), Col ''id'']"
  from wf have d: "distinct ?cols" and lt: "length ?tys = length ?cols"
    and len: "\<And>q. q \<in> set (rows df) \<Longrightarrow> length q = length ?cols"
    by (simp_all add: wf_df_def)
  have cx: "columns ?x = ?cols @ [''id'']" and tx: "dtypes ?x = ?tys @ [LongT]"
    and px: "parts ?x = layout en [parts df, layout en [] (nat S)] (length (rows df) * nat S)"
    by (simp_all add: crossJoin_salt_df)
  have an: "analyse (columns ?x) (col_refs ?e) = None"
    using d jc id by (simp add: cx resolve_distinct)
  have t1: "col_type (?cols @ [''id'']) (?tys @ [LongT]) ''join_col'' = key_type df"
    unfolding key_type_def using lt jc by (rule col_type_append_left)
  have t2: "col_type (?cols @ [''id'']) (?tys @ [LongT]) ''id'' = LongT"
    using lt id by (rule col_type_last)
  have ty: "typeof (col_type (columns ?x) (dtypes ?x)) ?e = Inr StringT"
    using ct by (simp only: typeof_small_key cx tx t1 t2 castable.simps simp_thms if_True)
  have ev: "\<And>p r. r \<in> set (rows ?x) \<Longrightarrow> eval en (columns ?x) (locate (parts ?x) p) r ?e
              = Inr (F_concat en [cell (columns ?x) ''join_col'' r, StrV ''-'', cell (columns ?x) ''id'' r])"
    by (rule eval_small_key)
  have w: "withColumn en ''salted_col'' ?e ?x
         = Inr \<lparr>columns = columns ?x @ [''salted_col''],
                dtypes = dtypes ?x @ [StringT],
                rows = map (\<lambda>(p, r). r @ [F_concat en [cell (columns ?x) ''join_col'' r, StrV ''-'',
                                                        cell (columns ?x) ''id'' r]])
                         (enumerate 0 (rows ?x)),
                parts = parts ?x\<rparr>"
  proof (rule withColumn_new_rows [OF an ty])
    show "''salted_col'' \<notin> set (columns ?x)"
      unfolding cx using sc by simp
  qed (rule ev)
  have row: "without [''id'', ''join_col''] (?cols @ [''id'', ''salted_col''])
               (q @ [LongV (int j),
                     F_concat en [cell (?cols @ [''id'']) ''join_col'' (q @ [LongV (int j)]),
                                  StrV ''-'',
                                  cell (?cols @ [''id'']) ''id'' (q @ [LongV (int j)])]])
             = without [''join_col''] ?cols q @ [salted_key en (cell ?cols ''join_col'' q) (int j)]"
    if "q \<in> set (rows df)" for q j
  proof -
    from that have l: "length q = length ?cols" by (rule len)
    have "cell (?cols @ [''id'']) ''join_col'' (q @ [LongV (int j)]) = cell ?cols ''join_col'' q"
      using l jc by (rule cell_append_left)
    moreover have "cell (?cols @ [''id'']) ''id'' (q @ [LongV (int j)]) = LongV (int j)"
      using l id by (simp add: cell_append_right cell_single)
    moreover have "without [''id'', ''join_col''] ?cols q = without [''join_col''] ?cols q"
      using id by (rule without_more)
    ultimately show ?thesis
      using l by (simp add: without_append without_Cons without_Nil salted_key_def)
  qed
  have colsx: "without [''id'', ''join_col''] (columns ?x @ [''salted_col'']) (columns ?x @ [''salted_col''])
             = without [''join_col''] ?cols ?cols @ [''salted_col'']"
    using id by (simp add: cx without_append without_Cons without_Nil without_more)
  have tysx: "without [''id'', ''join_col''] (columns ?x @ [''salted_col'']) (dtypes ?x @ [StringT])
             = without [''join_col''] ?cols ?tys @ [StringT]"
    using id lt by (simp add: cx tx without_append without_Cons without_Nil without_more)
  have rowsx: "map (without [''id'', ''join_col''] (columns ?x @ [''salted_col'']))
                 (map (\<lambda>(p, r). r @ [F_concat en [cell (columns ?x) ''join_col'' r, StrV ''-'',
                                                        cell (columns ?x) ''id'' r]])
                         (enumerate 0 (rows ?x)))
             = map (\<lambda>(q, j). without [''join_col''] ?cols q
                                        @ [salted_key en (cell ?cols ''join_col'' q) (int j)])
                         (List.product (rows df) [0..<nat S])"
    unfolding map_enumerate_snd
    by (auto simp: crossJoin_salt_df row)
  show ?thesis
    unfolding small_df_salted_def w
    by (simp only: sum.case drop_cols_def dataframe.simps colsx tysx rowsx px)
qed

section \<open>Typed cells\<close>

lemma typed_cell:
  "distinct cols \<Longrightarrow> length tys = length cols \<Longrightarrow> list_all2 has_type tys r \<Longrightarrow>
     c \<in> set cols \<Longrightarrow> has_type (col_type cols tys c) (cell cols c r)"
proof (induction cols arbitrary: tys r)
  case Nil
  then show ?case by simp
next
  case (Cons d cols)
  from Cons.prems(2) obtain t tys' where tys: "tys = t # tys'"
    by (cases tys) auto
  from Cons.prems(3) tys obtain v r' where r: "r = v # r'"
    by (cases r) auto
  show ?case
  proof (cases "c = d")
    case True
    with Cons.prems(3) show ?thesis
      by (simp add: tys r cell_single col_type_single)
  next
    case False
    have "has_type (col_type cols tys' c) (cell cols c r')"
      using Cons.prems False by (intro Cons.IH) (simp_all add: tys r)
    with False show ?thesis
      by (simp add: tys r cell_def col_type_def)
  qed
qed

lemma wf_key_typed:
  assumes "wf_df df" "''join_col'' \<in> set (columns df)" "r \<in> set (rows df)"
  shows "has_type (key_type df) (cell (columns df) ''join_col'' r)"
  unfolding key_type_def using assms by (intro typed_cell) (simp_all add: wf_df_def)

lemma castable_cast_string:
  "castable (type_of v) \<Longrightarrow> v \<noteq> Null \<Longrightarrow> cast_string en v \<noteq> Null"
  by (cases v) simp_all

lemma has_type_castable: "has_type t v \<Longrightarrow> castable t \<Longrightarrow> castable (type_of v)"
  by (auto simp: has_type_def)

section \<open>Salted keys\<close>

lemma salted_key_Null [simp]: "salted_key en Null i = Null"
  by (simp add: salted_key_def F_concat_def)

lemma salted_key_StrV: "salted_key en (StrV s) i = StrV (s @ ''-'' @ cast_long i)"
  by (simp add: salted_key_def F_concat_def)

lemma salted_key_LongV: "salted_key en (LongV a) i = StrV (cast_long a @ ''-'' @ cast_long i)"
  by (simp add: salted_key_def F_concat_def)

lemma salted_key_DblV: "salted_key en (DblV x) i = StrV (show_double en x @ ''-'' @ cast_long i)"
  by (simp add: salted_key_def F_concat_def)

lemma salted_key_eq_Null: "castable (type_of k) \<Longrightarrow> salted_key en k i = Null \<longleftrightarrow> k = Null"
  by (cases k) (simp_all add: salted_key_StrV salted_key_LongV salted_key_DblV)

lemma salted_key_eq_iff:
  assumes "t = StringT \<or> t = LongT" "has_type t k" "has_type t k'"
    and "0 \<le> i" "0 \<le> j" "k \<noteq> Null"
  shows "salted_key en k' j = salted_key en k i \<longleftrightarrow> k' = k \<and> j = i"
proof (cases k)
  case Null
  with assms show ?thesis by simp
next
  case (LongV a)
  note k = this
  with assms(1,2) have t: "t = LongT" by (auto simp: has_type_def)
  show ?thesis
  proof (cases k')
    case (LongV b)
    show ?thesis
      using salted_text_inj [OF assms(5,4), of "cast_long b" "cast_long a"] cast_long_inj [of b a]
      by (auto simp: k LongV salted_key_LongV)
  qed (use assms(3) t k in \<open>simp_all add: salted_key_LongV has_type_def\<close>)
next
  case (StrV s)
  note k = this
  with assms(1,2) have t: "t = StringT" by (auto simp: has_type_def)
  show ?thesis
  proof (cases k')
    case (StrV u)
    show ?thesis
      using salted_text_inj [OF assms(5,4), of u s]
      by (auto simp: k StrV salted_key_StrV)
  qed (use assms(3) t k in \<open>simp_all add: salted_key_StrV has_type_def\<close>)
qed (use assms in \<open>auto simp: has_type_def\<close>)

lemma filter_index: "0 \<le> i \<Longrightarrow> i < int n \<Longrightarrow> filter (\<lambda>j. int j = i) [0..<n] = [nat i]"
proof (induction n)
  case 0
  then show ?case by simp
next
  case (Suc n)
  show ?case
  proof (cases "i < int n")
    case True
    with Suc show ?thesis by simp
  next
    case False
    with Suc.prems have i: "i = int n" by simp
    have "filter (\<lambda>j. int j = int n) [0..<n] = []"
      by (simp add: filter_empty_conv)
    with i show ?thesis by simp
  qed
qed

text \<open>The exploded rows that match one salted key are the small rows that match the key.\<close>

lemma matches_exploded:
  assumes t: "t = StringT \<or> t = LongT" and tk: "has_type t k"
    and ty: "\<And>q. q \<in> set qs \<Longrightarrow> has_type t (key q)"
    and i: "0 \<le> i" "i < int n"
  shows "filter (\<lambda>b. salted_key en k i \<noteq> Null \<and> last b = salted_key en k i)
           (map (\<lambda>(q, j). w q @ [salted_key en (key q) (int j)]) (List.product qs [0..<n]))
       = map (\<lambda>q. w q @ [salted_key en k i]) (filter (\<lambda>q. k \<noteq> Null \<and> key q = k) qs)"
proof (cases "k = Null")
  case True
  then show ?thesis by simp
next
  case False
  note k = this
  have ck: "castable (type_of k)"
    using t tk by (auto intro: has_type_castable)
  from ty show ?thesis
  proof (induction qs)
    case Nil
    then show ?case by simp
  next
    case (Cons q qs)
    have tq: "has_type t (key q)"
      by (rule Cons.prems) simp
    have e: "\<And>j. salted_key en (key q) (int j) = salted_key en k i \<longleftrightarrow> key q = k \<and> int j = i"
      using salted_key_eq_iff [OF t tk tq i(1) _ k] by simp
    have "filter (\<lambda>b. salted_key en k i \<noteq> Null \<and> last b = salted_key en k i)
            (map (\<lambda>j. w q @ [salted_key en (key q) (int j)]) [0..<n])
          = (if key q = k then [w q @ [salted_key en k i]] else [])"
    proof (cases "key q = k")
      case True
      have "filter (\<lambda>b. salted_key en k i \<noteq> Null \<and> last b = salted_key en k i)
            (map (\<lambda>j. w q @ [salted_key en (key q) (int j)]) [0..<n])
          = map (\<lambda>j. w q @ [salted_key en (key q) (int j)]) (filter (\<lambda>j. int j = i) [0..<n])"
        using k True e by (simp add: filter_map comp_def salted_key_eq_Null [OF ck])
      with True i show ?thesis by (simp add: filter_index)
    next
      case False
      then show ?thesis by (simp add: filter_empty_conv e)
    qed
    moreover have "filter (\<lambda>b. salted_key en k i \<noteq> Null \<and> last b = salted_key en k i)
           (map (\<lambda>(q, j). w q @ [salted_key en (key q) (int j)]) (List.product qs [0..<n]))
       = map (\<lambda>q. w q @ [salted_key en k i]) (filter (\<lambda>q. k \<noteq> Null \<and> key q = k) qs)"
      by (rule Cons.IH) (simp add: Cons.prems)
    ultimately show ?case
      using k by (simp add: comp_def)
  qed
qed

section \<open>The two joins, row by row\<close>

lemma salt_index_range:
  assumes "\<And>g k. 0 \<le> prng en g k \<and> prng en g k < 1"
    and "\<And>u. 0 \<le> u \<and> u < 1 \<Longrightarrow>
           0 \<le> dmul en u (dlong en S) \<and> dmul en u (dlong en S) < of_int S"
  shows "0 \<le> salt_index en seed_no S df p \<and> salt_index en seed_no S df p < S"
proof -
  let ?u = "draw en seed_no df p"
  have "0 \<le> ?u \<and> ?u < 1"
    unfolding draw_def by (rule assms(1))
  then have "0 \<le> dmul en ?u (dlong en S) \<and> dmul en ?u (dlong en S) < of_int S"
    by (rule assms(2))
  then show ?thesis
    by (simp add: salt_index_def floor_less_iff)
qed

lemma cast_to_StringT: "cast_to en StringT v = v"
  by (cases v) simp_all

lemma cast_to_typed: "t = StringT \<or> t = LongT \<Longrightarrow> has_type t v \<Longrightarrow> cast_to en t v = v"
  by (cases v) (auto simp: has_type_def)

lemma partners_text:
  "partners en StringT c b k = filter (\<lambda>q. k \<noteq> Null \<and> cell (columns b) c q = k) (rows b)"
  by (simp add: partners_def cast_to_StringT)

lemma partners_typed:
  assumes "t = StringT \<or> t = LongT" "has_type t k"
    and "\<And>q. q \<in> set (rows b) \<Longrightarrow> has_type t (cell (columns b) c q)"
  shows "partners en t c b k = filter (\<lambda>q. k \<noteq> Null \<and> cell (columns b) c q = k) (rows b)"
  unfolding partners_def
  by (rule filter_cong [OF refl]) (simp add: cast_to_typed [OF assms(1)] assms(2,3))

lemma partners_subset: "set (partners en t c b k) \<subseteq> set (rows b)"
  by (auto simp: partners_def)

lemma common_type_castable:
  "castable t \<Longrightarrow> castable u \<Longrightarrow> \<exists>v. common_type t u = Some v"
  by (cases t; cases u) (simp_all add: common_type_def doubleton_eq_iff)

lemma joined_df_raw:
  assumes "distinct (columns a)" "''join_col'' \<in> set (columns a)"
    and "distinct (columns b)" "''join_col'' \<in> set (columns b)"
    and "common_type (key_type a) (key_type b) = Some t"
  shows "\<exists>base. joined_df en a b = Inr base
     \<and> columns base = ''join_col'' # without [''join_col''] (columns a) (columns a)
                         @ without [''join_col''] (columns b) (columns b)
     \<and> dtypes base = key_type a # without [''join_col''] (columns a) (dtypes a)
                         @ without [''join_col''] (columns b) (dtypes b)
     \<and> rows base = join_rows en t ''join_col'' a b"
  using assms by (simp add: joined_df_def join_left_def resolve_distinct key_type_def)

lemma joined_df_eq:
  assumes wa: "wf_df a" and ja: "''join_col'' \<in> set (columns a)"
    and wb: "wf_df b" and jb: "''join_col'' \<in> set (columns b)"
    and ty: "same_key_type a b"
  shows "\<exists>base. joined_df en a b = Inr base
     \<and> columns base = ''join_col'' # without [''join_col''] (columns a) (columns a)
                         @ without [''join_col''] (columns b) (columns b)
     \<and> rows base = concat (map (\<lambda>r.
              let k = cell (columns a) ''join_col'' r;
                  keep = without [''join_col''] (columns a) r;
                  ms = filter (\<lambda>q. k \<noteq> Null \<and> cell (columns b) ''join_col'' q = k) (rows b)
              in if ms = []
                 then [k # keep @ replicate (length (without [''join_col''] (columns b) (columns b))) Null]
                 else map (\<lambda>q. k # keep @ without [''join_col''] (columns b) q) ms)
            (rows a))"
proof -
  let ?t = "key_type a"
  from wa have da: "distinct (columns a)" by (simp add: wf_df_def)
  from wb have db: "distinct (columns b)" by (simp add: wf_df_def)
  from ty have t: "?t = StringT \<or> ?t = LongT"
    by (auto simp: same_key_type_def)
  from ty have tb: "key_type b = ?t"
    by (auto simp: same_key_type_def)
  have ct: "common_type (key_type a) (key_type b) = Some ?t"
    using t tb by (auto simp: common_type_def)
  have pr: "partners en ?t ''join_col'' b (cell (columns a) ''join_col'' r)
          = filter (\<lambda>q. cell (columns a) ''join_col'' r \<noteq> Null
                        \<and> cell (columns b) ''join_col'' q = cell (columns a) ''join_col'' r) (rows b)"
    if "r \<in> set (rows a)" for r
  proof (rule partners_typed [OF t])
    show "has_type ?t (cell (columns a) ''join_col'' r)"
      using wa ja that by (rule wf_key_typed)
    show "has_type ?t (cell (columns b) ''join_col'' q)" if "q \<in> set (rows b)" for q
      using wf_key_typed [OF wb jb that] by (simp only: tb)
  qed
  have rws: "join_rows en ?t ''join_col'' a b = concat (map (\<lambda>r.
              let k = cell (columns a) ''join_col'' r;
                  keep = without [''join_col''] (columns a) r;
                  ms = filter (\<lambda>q. k \<noteq> Null \<and> cell (columns b) ''join_col'' q = k) (rows b)
              in if ms = []
                 then [k # keep @ replicate (length (without [''join_col''] (columns b) (columns b))) Null]
                 else map (\<lambda>q. k # keep @ without [''join_col''] (columns b) q) ms)
            (rows a))"
    unfolding join_rows_def Let_def
    by (rule arg_cong [where f = concat], rule map_cong [OF refl]) (simp only: pr)
  from joined_df_raw [OF da ja db jb ct, of en] show ?thesis
    by (auto simp only: rws)
qed

text \<open>
  The salted join succeeds whenever both keys can be rendered as text: it joins the two
  salted frames on their text column.
\<close>

lemma salted_join_df_raw:
  assumes wa: "wf_df a" and ja: "''join_col'' \<in> set (columns a)"
    and sa: "''salted_col'' \<notin> set (columns a)"
    and wb: "wf_df b" and jb: "''join_col'' \<in> set (columns b)"
    and sb: "''salted_col'' \<notin> set (columns b)" and ib: "''id'' \<notin> set (columns b)"
    and ka: "castable (key_type a)" and kb: "castable (key_type b)"
  shows "\<exists>A B out. skewed_salted en seed_no S a = Inr A \<and> small_df_salted en S b = Inr B
     \<and> salted_join_df en seed_no S a b = Inr out
     \<and> columns out = ''salted_col'' # columns a @ without [''join_col''] (columns b) (columns b)
     \<and> dtypes out = StringT # dtypes a @ without [''join_col''] (columns b) (dtypes b)
     \<and> rows out = join_rows en StringT ''salted_col'' A B"
proof -
  let ?ca = "columns a" and ?cb = "columns b"
  let ?cb' = "without [''join_col''] ?cb ?cb"
  let ?tb' = "without [''join_col''] ?cb (dtypes b)"
  from wa have da: "distinct ?ca" and ta: "length (dtypes a) = length ?ca"
    by (simp_all add: wf_df_def)
  from wb have db: "distinct ?cb" and tb: "length (dtypes b) = length ?cb"
    by (simp_all add: wf_df_def)
  have ltb: "length ?tb' = length ?cb'"
    by (rule length_without) (rule tb)
  have sb': "''salted_col'' \<notin> set ?cb'" using sb by (simp add: set_without)
  obtain A where eA: "skewed_salted en seed_no S a = Inr A"
    and cA: "columns A = ?ca @ [''salted_col'']" and tA: "dtypes A = dtypes a @ [StringT]"
    by (simp add: skewed_salted_eq [OF da ja sa ka])
  obtain B where eB: "small_df_salted en S b = Inr B"
    and cB: "columns B = ?cb' @ [''salted_col'']" and tB: "dtypes B = ?tb' @ [StringT]"
    by (simp add: small_df_salted_eq [OF wb jb sb ib kb])
  have rA: "resolve (columns A) ''salted_col'' = None"
    using da sa by (simp add: cA resolve_distinct)
  have rB: "resolve (columns B) ''salted_col'' = None"
    using db sb' by (simp add: cB resolve_distinct distinct_without)
  have kA: "col_type (columns A) (dtypes A) ''salted_col'' = StringT"
    unfolding cA tA using ta sa by (rule col_type_last)
  have kB: "col_type (columns B) (dtypes B) ''salted_col'' = StringT"
    unfolding cB tB using ltb sb' by (rule col_type_last)
  have ct: "common_type StringT StringT = Some StringT"
    by (simp add: common_type_def)
  have wA: "without [''salted_col''] (columns A) (columns A) = ?ca"
    unfolding cA using sa by (simp add: without_last)
  have wB: "without [''salted_col''] (columns B) (columns B) = ?cb'"
    unfolding cB using sb' by (simp add: without_last)
  have wtA: "without [''salted_col''] (columns A) (dtypes A) = dtypes a"
    unfolding cA tA using sa ta by (simp add: without_last)
  have wtB: "without [''salted_col''] (columns B) (dtypes B) = ?tb'"
    unfolding cB tB using sb' ltb by (simp add: without_last)
  have "\<exists>out. join_left en ''salted_col'' A B = Inr out
     \<and> columns out = ''salted_col'' # ?ca @ ?cb'
     \<and> dtypes out = StringT # dtypes a @ ?tb'
     \<and> rows out = join_rows en StringT ''salted_col'' A B"
    by (simp add: join_left_def rA rB kA kB ct wA wB wtA wtB)
  then show ?thesis
    unfolding salted_join_df_def eA eB sum.case
    using eA eB by blast
qed

text \<open>
  The rows of the salted join: every skewed row, in front of it its salted key, behind it
  the cells of each exploded row with that salted key, or nulls when there is none.
\<close>

lemma salted_join_df_rows:
  assumes wa: "wf_df a" and ja: "''join_col'' \<in> set (columns a)"
    and sa: "''salted_col'' \<notin> set (columns a)"
    and wb: "wf_df b" and jb: "''join_col'' \<in> set (columns b)"
    and sb: "''salted_col'' \<notin> set (columns b)" and ib: "''id'' \<notin> set (columns b)"
    and ka: "castable (key_type a)" and kb: "castable (key_type b)"
  shows "\<exists>B out. small_df_salted en S b = Inr B
     \<and> salted_join_df en seed_no S a b = Inr out
     \<and> columns out = ''salted_col'' # columns a @ without [''join_col''] (columns b) (columns b)
     \<and> dtypes out = StringT # dtypes a @ without [''join_col''] (columns b) (dtypes b)
     \<and> rows out = concat (map (\<lambda>(p, r).
              let s = salted_key en (cell (columns a) ''join_col'' r) (salt_index en seed_no S a p);
                  ms = partners en StringT ''salted_col'' B s
              in if ms = []
                 then [s # r @ replicate (length (without [''join_col''] (columns b) (columns b))) Null]
                 else map (\<lambda>q. s # r @ without [''salted_col''] (columns B) q) ms)
            (enumerate 0 (rows a)))"
proof -
  let ?ca = "columns a" and ?cb = "columns b"
  let ?cb' = "without [''join_col''] ?cb ?cb"
  let ?ix = "salt_index en seed_no S a"
  from wa have da: "distinct ?ca" and la: "\<And>r. r \<in> set (rows a) \<Longrightarrow> length r = length ?ca"
    by (simp_all add: wf_df_def)
  from wb have db: "distinct ?cb"
    by (simp_all add: wf_df_def)
  have sb': "''salted_col'' \<notin> set ?cb'" using sb by (simp add: set_without)
  from salted_join_df_raw [OF wa ja sa wb jb sb ib ka kb, of en seed_no S]
  obtain A B out where eA: "skewed_salted en seed_no S a = Inr A"
    and eB: "small_df_salted en S b = Inr B"
    and eo: "salted_join_df en seed_no S a b = Inr out"
    and co: "columns out = ''salted_col'' # ?ca @ ?cb'"
    and to: "dtypes out = StringT # dtypes a @ without [''join_col''] ?cb (dtypes b)"
    and ro: "rows out = join_rows en StringT ''salted_col'' A B"
    by blast
  from eA have cA: "columns A = ?ca @ [''salted_col'']"
    and rwA: "rows A = map (\<lambda>(p, r). r @ [salted_key en (cell ?ca ''join_col'' r) (?ix p)])
                         (enumerate 0 (rows a))"
    by (auto simp: skewed_salted_eq [OF da ja sa ka])
  from eB have cB: "columns B = ?cb' @ [''salted_col'']"
    by (auto simp: small_df_salted_eq [OF wb jb sb ib kb])
  have wB: "without [''salted_col''] (columns B) (columns B) = ?cb'"
    unfolding cB using sb' by (simp add: without_last)
  have row: "(let k = cell (columns A) ''salted_col'' r';
                  keep = without [''salted_col''] (columns A) r';
                  ms = partners en StringT ''salted_col'' B k
              in if ms = []
                 then [k # keep @ replicate (length ?cb') Null]
                 else map (\<lambda>q. k # keep @ without [''salted_col''] (columns B) q) ms)
           = (let s = salted_key en (cell ?ca ''join_col'' r) (?ix p);
                  ms = partners en StringT ''salted_col'' B s
              in if ms = []
                 then [s # r @ replicate (length ?cb') Null]
                 else map (\<lambda>q. s # r @ without [''salted_col''] (columns B) q) ms)"
    if r: "r \<in> set (rows a)" and r': "r' = r @ [salted_key en (cell ?ca ''join_col'' r) (?ix p)]"
    for r r' p
  proof -
    from r have l: "length r = length ?ca" by (rule la)
    have 1: "cell (columns A) ''salted_col'' r' = salted_key en (cell ?ca ''join_col'' r) (?ix p)"
      using l sa by (simp add: cA r' cell_last)
    have 2: "without [''salted_col''] (columns A) r' = r"
      using l sa by (simp add: cA r' without_last)
    show ?thesis
      unfolding 1 2 Let_def by (rule refl)
  qed
  have "join_rows en StringT ''salted_col'' A B
        = concat (map (\<lambda>(p, r).
              let s = salted_key en (cell ?ca ''join_col'' r) (?ix p);
                  ms = partners en StringT ''salted_col'' B s
              in if ms = []
                 then [s # r @ replicate (length ?cb') Null]
                 else map (\<lambda>q. s # r @ without [''salted_col''] (columns B) q) ms)
            (enumerate 0 (rows a)))"
    unfolding join_rows_def wB rwA
    apply (simp only: map_map comp_def)
    apply (rule arg_cong [where f = concat])
    apply (rule map_cong [OF refl])
    apply (clarsimp simp only: split_def)
    apply (rule row)
     apply (auto simp: in_set_enumerate_eq)
    done
  with eB eo co to ro show ?thesis
    by (intro exI [of _ B] exI [of _ out]) (simp only: simp_thms)
qed

text \<open>The salted join, row by row, in terms of the small rows that match the original key.\<close>

lemma salted_join_df_eq:
  assumes wa: "wf_df a" and ja: "''join_col'' \<in> set (columns a)"
    and sa: "''salted_col'' \<notin> set (columns a)"
    and wb: "wf_df b" and jb: "''join_col'' \<in> set (columns b)"
    and sb: "''salted_col'' \<notin> set (columns b)" and ib: "''id'' \<notin> set (columns b)"
    and ty: "same_key_type a b"
    and i: "\<And>p. 0 \<le> salt_index en seed_no S a p \<and> salt_index en seed_no S a p < S"
  shows "\<exists>out. salted_join_df en seed_no S a b = Inr out
     \<and> columns out = ''salted_col'' # columns a @ without [''join_col''] (columns b) (columns b)
     \<and> rows out = concat (map (\<lambda>(p, r).
              let k = cell (columns a) ''join_col'' r;
                  s = salted_key en k (salt_index en seed_no S a p);
                  ms = filter (\<lambda>q. k \<noteq> Null \<and> cell (columns b) ''join_col'' q = k) (rows b)
              in if ms = []
                 then [s # r @ replicate (length (without [''join_col''] (columns b) (columns b))) Null]
                 else map (\<lambda>q. s # r @ without [''join_col''] (columns b) q) ms)
            (enumerate 0 (rows a)))"
proof -
  let ?ca = "columns a" and ?cb = "columns b"
  let ?cb' = "without [''join_col''] ?cb ?cb"
  let ?w = "without [''join_col''] ?cb"
  let ?key = "cell ?cb ''join_col''"
  let ?ix = "salt_index en seed_no S a"
  let ?t = "key_type a"
  from ty have t: "?t = StringT \<or> ?t = LongT"
    by (auto simp: same_key_type_def)
  from ty have tb: "key_type b = ?t"
    by (auto simp: same_key_type_def)
  from t have ka: "castable ?t" by auto
  with tb have kb: "castable (key_type b)" by simp
  from wb have lb: "\<And>q. q \<in> set (rows b) \<Longrightarrow> length q = length ?cb"
    by (simp_all add: wf_df_def)
  have lw: "\<And>q. q \<in> set (rows b) \<Longrightarrow> length (?w q) = length ?cb'"
    by (rule length_without) (rule lb)
  have sb': "''salted_col'' \<notin> set ?cb'" using sb by (simp add: set_without)
  from salted_join_df_rows [OF wa ja sa wb jb sb ib ka kb, of en S seed_no]
  obtain B out where eB: "small_df_salted en S b = Inr B"
    and eo: "salted_join_df en seed_no S a b = Inr out"
    and co: "columns out = ''salted_col'' # ?ca @ ?cb'"
    and ro: "rows out = concat (map (\<lambda>(p, r).
              let s = salted_key en (cell ?ca ''join_col'' r) (?ix p);
                  ms = partners en StringT ''salted_col'' B s
              in if ms = []
                 then [s # r @ replicate (length ?cb') Null]
                 else map (\<lambda>q. s # r @ without [''salted_col''] (columns B) q) ms)
            (enumerate 0 (rows a)))"
    by blast
  from eB have cB: "columns B = ?cb' @ [''salted_col'']"
    and rB: "rows B = map (\<lambda>(q, j). ?w q @ [salted_key en (?key q) (int j)])
                         (List.product (rows b) [0..<nat S])"
    by (auto simp: small_df_salted_eq [OF wb jb sb ib kb])
  have pB: "partners en StringT ''salted_col'' B s
          = filter (\<lambda>q'. s \<noteq> Null \<and> last q' = s) (rows B)" for s
    unfolding partners_text
    by (rule filter_cong) (auto simp: cB rB cell_last lw sb')
  have part: "partners en StringT ''salted_col'' B (salted_key en (cell ?ca ''join_col'' r) (?ix p))
          = map (\<lambda>q. ?w q @ [salted_key en (cell ?ca ''join_col'' r) (?ix p)])
              (filter (\<lambda>q. cell ?ca ''join_col'' r \<noteq> Null \<and> ?key q = cell ?ca ''join_col'' r) (rows b))"
    if r: "r \<in> set (rows a)" for r p
  proof -
    have tk: "has_type ?t (cell ?ca ''join_col'' r)"
      using wa ja r by (rule wf_key_typed)
    have tq: "has_type ?t (?key q)" if "q \<in> set (rows b)" for q
      using wf_key_typed [OF wb jb that] by (simp only: tb)
    from i [of p] have ix: "0 \<le> ?ix p" "?ix p < int (nat S)" by simp_all
    show ?thesis
      unfolding pB rB
      by (rule matches_exploded [OF t tk tq ix])
  qed
  have row: "(let s = salted_key en (cell ?ca ''join_col'' r) (?ix p);
                  ms = partners en StringT ''salted_col'' B s
              in if ms = []
                 then [s # r @ replicate (length ?cb') Null]
                 else map (\<lambda>q. s # r @ without [''salted_col''] (columns B) q) ms)
           = (let k = cell ?ca ''join_col'' r;
                  s = salted_key en k (?ix p);
                  ms = filter (\<lambda>q. k \<noteq> Null \<and> ?key q = k) (rows b)
              in if ms = []
                 then [s # r @ replicate (length ?cb') Null]
                 else map (\<lambda>q. s # r @ ?w q) ms)"
    if r: "r \<in> set (rows a)" for r p
  proof -
    let ?k = "cell ?ca ''join_col'' r"
    let ?s = "salted_key en ?k (?ix p)"
    have 3: "map (\<lambda>q. ?s # r @ without [''salted_col''] (columns B) q)
               (map (\<lambda>q. ?w q @ [?s]) (filter (\<lambda>q. ?k \<noteq> Null \<and> ?key q = ?k) (rows b)))
           = map (\<lambda>q. ?s # r @ ?w q) (filter (\<lambda>q. ?k \<noteq> Null \<and> ?key q = ?k) (rows b))"
      using sb' by (auto simp: cB without_last lw)
    show ?thesis
      unfolding part [OF r] Let_def 3
      by simp
  qed
  have "rows out = concat (map (\<lambda>(p, r).
              let k = cell ?ca ''join_col'' r;
                  s = salted_key en k (?ix p);
                  ms = filter (\<lambda>q. k \<noteq> Null \<and> ?key q = k) (rows b)
              in if ms = []
                 then [s # r @ replicate (length ?cb') Null]
                 else map (\<lambda>q. s # r @ ?w q) ms)
            (enumerate 0 (rows a)))"
    unfolding ro
    apply (rule arg_cong [where f = concat])
    apply (rule map_cong [OF refl])
    apply (clarsimp simp only: split_def)
    apply (rule row)
    apply (auto simp: in_set_enumerate_eq)
    done
  with eo co show ?thesis
    by (intro exI [of _ out]) (simp only: simp_thms)
qed

lemma analyse_distinct:
  "distinct cols \<Longrightarrow> set names \<subseteq> set cols \<Longrightarrow> analyse cols names = None"
  by (induction names) (simp_all add: resolve_distinct)

lemma cell_Cons:
  "cell (c # cols) c' (x # r) = (if c' = c then x else cell cols c' r)"
  by (simp add: cell_def)

lemma map_cell_without:
  "distinct cols \<Longrightarrow> length r = length cols \<Longrightarrow>
     map (\<lambda>c. cell cols c r) (without names cols cols) = without names cols r"
proof (induction cols arbitrary: r)
  case Nil
  then show ?case by (simp add: without_Nil)
next
  case (Cons c cols)
  then obtain x r' where r: "r = x # r'" by (cases r) auto
  have "map (\<lambda>c'. cell (c # cols) c' (x # r')) (without names cols cols)
      = map (\<lambda>c'. cell cols c' r') (without names cols cols)"
    using Cons.prems(1) by (auto simp: cell_Cons set_without)
  with Cons show ?case
    by (simp add: r without_Cons cell_Cons)
qed

lemma map_cell_self:
  "distinct cols \<Longrightarrow> length r = length cols \<Longrightarrow> map (\<lambda>c. cell cols c r) cols = r"
  using map_cell_without [of cols r "[]"] by (simp add: without_none)

text \<open>
  Taking the columns of the direct join out of a row of the salted join: the salted key in
  front is dropped and the original key moves to the front.
\<close>

lemma select_salted_row:
  assumes da: "distinct ca" and db: "distinct cb'" and dj: "set ca \<inter> set cb' = {}"
    and ja: "jc \<in> set ca" and sa: "sc \<notin> set ca" and sb: "sc \<notin> set cb'"
    and lr: "length r = length ca" and lw: "length w = length cb'"
  shows "map (\<lambda>c. cell (ca @ cb') c (without [sc] (sc # ca @ cb') (s # r @ w)))
           (jc # without [jc] ca ca @ cb')
         = cell ca jc r # without [jc] ca r @ w"
proof -
  have 1: "without [sc] (sc # ca @ cb') (s # r @ w) = r @ w"
    using sa sb lr lw by (simp add: without_Cons without_none)
  have 2: "cell (ca @ cb') jc (r @ w) = cell ca jc r"
    using lr ja by (rule cell_append_left)
  have "map (\<lambda>c. cell (ca @ cb') c (r @ w)) (without [jc] ca ca)
      = map (\<lambda>c. cell ca c r) (without [jc] ca ca)"
    using lr by (auto simp: set_without cell_append_left)
  then have 3: "map (\<lambda>c. cell (ca @ cb') c (r @ w)) (without [jc] ca ca) = without [jc] ca r"
    using da lr by (simp add: map_cell_without)
  have "map (\<lambda>c. cell (ca @ cb') c (r @ w)) cb' = map (\<lambda>c. cell cb' c w) cb'"
  proof (rule map_cong [OF refl])
    fix c assume "c \<in> set cb'"
    with dj have "c \<notin> set ca" by auto
    with lr show "cell (ca @ cb') c (r @ w) = cell cb' c w" by (rule cell_append_right)
  qed
  then have 4: "map (\<lambda>c. cell (ca @ cb') c (r @ w)) cb' = w"
    using db lw by (simp add: map_cell_self)
  show ?thesis
    by (simp add: 1 2 3 4)
qed

lemma salted_join_select:
  assumes wa: "wf_df a" and ja: "''join_col'' \<in> set (columns a)"
    and sa: "''salted_col'' \<notin> set (columns a)"
    and wb: "wf_df b" and jb: "''join_col'' \<in> set (columns b)"
    and sb: "''salted_col'' \<notin> set (columns b)" and ib: "''id'' \<notin> set (columns b)"
    and dj: "set (columns a) \<inter> set (columns b) \<subseteq> {''join_col''}"
    and ty: "same_key_type a b"
    and i: "\<And>p. 0 \<le> salt_index en seed_no S a p \<and> salt_index en seed_no S a p < S"
  shows "\<exists>out base sel. salted_join_df en seed_no S a b = Inr out \<and> joined_df en a b = Inr base
           \<and> select (columns base) (drop_cols [''salted_col''] out) = Inr sel
           \<and> columns sel = columns base \<and> rows sel = rows base"
proof -
  let ?ca = "columns a" and ?cb = "columns b"
  let ?cb' = "without [''join_col''] ?cb ?cb"
  let ?ca' = "without [''join_col''] ?ca ?ca"
  let ?w = "without [''join_col''] ?cb"
  let ?nulls = "replicate (length ?cb') Null"
  let ?names = "''join_col'' # ?ca' @ ?cb'"
  let ?M = "\<lambda>k. filter (\<lambda>q. k \<noteq> Null \<and> cell ?cb ''join_col'' q = k) (rows b)"
  let ?F = "\<lambda>(p, r).
              let k = cell ?ca ''join_col'' r;
                  s = salted_key en k (salt_index en seed_no S a p);
                  ms = filter (\<lambda>q. k \<noteq> Null \<and> cell ?cb ''join_col'' q = k) (rows b)
              in if ms = [] then [s # r @ ?nulls] else map (\<lambda>q. s # r @ ?w q) ms"
  let ?G = "\<lambda>r.
              let k = cell ?ca ''join_col'' r;
                  keep = without [''join_col''] ?ca r;
                  ms = filter (\<lambda>q. k \<noteq> Null \<and> cell ?cb ''join_col'' q = k) (rows b)
              in if ms = [] then [k # keep @ ?nulls] else map (\<lambda>q. k # keep @ ?w q) ms"
  let ?T = "\<lambda>row. map (\<lambda>c. cell (?ca @ ?cb') c
                          (without [''salted_col''] (''salted_col'' # ?ca @ ?cb') row)) ?names"
  from wa have da: "distinct ?ca" and la: "\<And>r. r \<in> set (rows a) \<Longrightarrow> length r = length ?ca"
    by (simp_all add: wf_df_def)
  from wb have db: "distinct ?cb" and lb: "\<And>q. q \<in> set (rows b) \<Longrightarrow> length q = length ?cb"
    by (simp_all add: wf_df_def)
  have lw: "\<And>q. q \<in> set (rows b) \<Longrightarrow> length (?w q) = length ?cb'"
    by (rule length_without) (rule lb)
  have db': "distinct ?cb'" using db by (rule distinct_without)
  have dj': "set ?ca \<inter> set ?cb' = {}" using dj by (auto simp: set_without)
  have sb': "''salted_col'' \<notin> set ?cb'" using sb by (simp add: set_without)
  from salted_join_df_eq [OF wa ja sa wb jb sb ib ty i]
  obtain out where e_out: "salted_join_df en seed_no S a b = Inr out"
    and co: "columns out = ''salted_col'' # ?ca @ ?cb'"
    and ro: "rows out = concat (map ?F (enumerate 0 (rows a)))"
    by blast
  from joined_df_eq [OF wa ja wb jb ty, of en]
  obtain base where e_base: "joined_df en a b = Inr base"
    and cb: "columns base = ?names"
    and rb: "rows base = concat (map ?G (rows a))"
    by blast
  have T: "?T (s # r @ w) = cell ?ca ''join_col'' r # without [''join_col''] ?ca r @ w"
    if "length r = length ?ca" "length w = length ?cb'" for s r w
    using da db' dj' ja sa sb' that by (rule select_salted_row)
  have FG: "map ?T (?F (p, r)) = ?G r" if r: "r \<in> set (rows a)" for p r
  proof -
    from r have l: "length r = length ?ca" by (rule la)
    let ?k = "cell ?ca ''join_col'' r"
    show ?thesis
    proof (cases "?M ?k = []")
      case True
      with T [OF l, of ?nulls] show ?thesis by (simp add: Let_def)
    next
      case False
      have "map ?T (map (\<lambda>q. s # r @ ?w q) (?M ?k))
          = map (\<lambda>q. ?k # without [''join_col''] ?ca r @ ?w q) (?M ?k)" for s
        unfolding map_map comp_def
        by (rule map_cong [OF refl], rule T [OF l], rule lw) simp
      with False show ?thesis by (simp add: Let_def)
    qed
  qed
  have "map ?T (concat (map ?F (enumerate 0 (rows a)))) = concat (map (\<lambda>(p, r). ?G r) (enumerate 0 (rows a)))"
    unfolding map_concat map_map comp_def
  proof (rule arg_cong [where f = concat], rule map_cong [OF refl])
    fix x assume x: "x \<in> set (enumerate 0 (rows a))"
    obtain p r where pr: "x = (p, r)" by (cases x)
    with x have "r \<in> set (rows a)" by (auto simp: in_set_enumerate_eq)
    then have "map ?T (?F (p, r)) = ?G r" by (rule FG)
    then show "map ?T (?F x) = (case x of (p, r) \<Rightarrow> ?G r)"
      by (simp only: pr prod.case)
  qed
  also have "\<dots> = concat (map ?G (rows a))"
    by (simp only: map_enumerate_snd)
  finally have rws: "map ?T (concat (map ?F (enumerate 0 (rows a)))) = concat (map ?G (rows a))" .
  have an: "analyse (?ca @ ?cb') ?names = None"
    using da db' dj' ja by (intro analyse_distinct) (auto simp: set_without)
  have cd: "without [''salted_col''] (''salted_col'' # ?ca @ ?cb') (''salted_col'' # ?ca @ ?cb') = ?ca @ ?cb'"
    using sa sb' by (simp add: without_Cons without_none)
  have "\<exists>sel. select (columns base) (drop_cols [''salted_col''] out) = Inr sel
           \<and> columns sel = columns base \<and> rows sel = rows base"
    unfolding select_def drop_cols_def co cb ro rb
    by (simp only: dataframe.simps cd an option.case map_map comp_def rws [unfolded map_map comp_def])
      simp
  with e_out e_base show ?thesis by blast
qed

text \<open>
  The shape of every row of the salted join: the salted key, a row of the skewed frame,
  and the cells of a small row without its key, or nulls.
\<close>

lemma salted_join_rows_shape:
  assumes wa: "wf_df a" and ja: "''join_col'' \<in> set (columns a)"
    and sa: "''salted_col'' \<notin> set (columns a)"
    and wb: "wf_df b" and jb: "''join_col'' \<in> set (columns b)"
    and sb: "''salted_col'' \<notin> set (columns b)" and ib: "''id'' \<notin> set (columns b)"
    and ka: "castable (key_type a)" and kb: "castable (key_type b)"
  shows "\<exists>out. salted_join_df en seed_no S a b = Inr out
     \<and> columns out = ''salted_col'' # columns a @ without [''join_col''] (columns b) (columns b)
     \<and> (\<forall>row \<in> set (rows out). \<exists>p t.
           p < length (rows a)
           \<and> row = salted_key en (cell (columns a) ''join_col'' (rows a ! p))
                     (salt_index en seed_no S a p) # rows a ! p @ t
           \<and> (t = replicate (length (without [''join_col''] (columns b) (columns b))) Null
              \<or> (\<exists>q \<in> set (rows b). t = without [''join_col''] (columns b) q)))"
proof -
  let ?ca = "columns a" and ?cb = "columns b"
  let ?cb' = "without [''join_col''] ?cb ?cb"
  let ?w = "without [''join_col''] ?cb"
  let ?key = "cell ?cb ''join_col''"
  let ?ix = "salt_index en seed_no S a"
  from wb have lb: "\<And>q. q \<in> set (rows b) \<Longrightarrow> length q = length ?cb"
    by (simp_all add: wf_df_def)
  have lw: "\<And>q. q \<in> set (rows b) \<Longrightarrow> length (?w q) = length ?cb'"
    by (rule length_without) (rule lb)
  have sb': "''salted_col'' \<notin> set ?cb'" using sb by (simp add: set_without)
  from salted_join_df_rows [OF wa ja sa wb jb sb ib ka kb, of en S seed_no]
  obtain B out where eB: "small_df_salted en S b = Inr B"
    and eo: "salted_join_df en seed_no S a b = Inr out"
    and co: "columns out = ''salted_col'' # ?ca @ ?cb'"
    and ro: "rows out = concat (map (\<lambda>(p, r).
              let s = salted_key en (cell ?ca ''join_col'' r) (?ix p);
                  ms = partners en StringT ''salted_col'' B s
              in if ms = []
                 then [s # r @ replicate (length ?cb') Null]
                 else map (\<lambda>q. s # r @ without [''salted_col''] (columns B) q) ms)
            (enumerate 0 (rows a)))"
    by blast
  from eB have cB: "columns B = ?cb' @ [''salted_col'']"
    and rB: "rows B = map (\<lambda>(q, j). ?w q @ [salted_key en (?key q) (int j)])
                         (List.product (rows b) [0..<nat S])"
    by (auto simp: small_df_salted_eq [OF wb jb sb ib kb])
  have tail: "\<exists>q \<in> set (rows b). without [''salted_col''] (columns B) q' = ?w q"
    if "q' \<in> set (partners en StringT ''salted_col'' B s)" for q' s
  proof -
    from that partners_subset have "q' \<in> set (rows B)" by blast
    then obtain q j where q: "q \<in> set (rows b)"
      and q': "q' = ?w q @ [salted_key en (?key q) (int j)]"
      by (auto simp: rB)
    have "without [''salted_col''] (columns B) q' = ?w q"
      unfolding cB q' using lw [OF q] sb' by (rule without_last)
    with q show ?thesis by blast
  qed
  have "\<exists>p t. p < length (rows a)
           \<and> row = salted_key en (cell ?ca ''join_col'' (rows a ! p)) (?ix p) # rows a ! p @ t
           \<and> (t = replicate (length ?cb') Null \<or> (\<exists>q \<in> set (rows b). t = ?w q))"
    if "row \<in> set (rows out)" for row
  proof -
    from that obtain p r where pr: "(p, r) \<in> set (enumerate 0 (rows a))"
      and row: "row \<in> set (let s = salted_key en (cell ?ca ''join_col'' r) (?ix p);
                  ms = partners en StringT ''salted_col'' B s
              in if ms = []
                 then [s # r @ replicate (length ?cb') Null]
                 else map (\<lambda>q. s # r @ without [''salted_col''] (columns B) q) ms)"
      unfolding ro by auto
    from pr have p: "p < length (rows a)" and r: "r = rows a ! p"
      by (auto simp: in_set_enumerate_eq)
    let ?s = "salted_key en (cell ?ca ''join_col'' r) (?ix p)"
    show ?thesis
    proof (cases "partners en StringT ''salted_col'' B ?s = []")
      case True
      with row have "row = ?s # r @ replicate (length ?cb') Null"
        by (simp add: Let_def)
      with p r show ?thesis by blast
    next
      case False
      with row obtain q' where q': "q' \<in> set (partners en StringT ''salted_col'' B ?s)"
        and "row = ?s # r @ without [''salted_col''] (columns B) q'"
        by (auto simp: Let_def)
      with tail [OF q'] p r show ?thesis by blast
    qed
  qed
  with eo co show ?thesis
    by (intro exI [of _ out]) blast
qed

section \<open>The transforms, cell by cell\<close>

lemma engine_ex_range: "0 \<le> prng engine_ex g k \<and> prng engine_ex g k < 1"
  by (simp add: engine_ex_def)

lemma engine_ex_product:
  assumes "0 \<le> u \<and> u < 1" "1 \<le> S"
  shows "0 \<le> dmul engine_ex u (dlong engine_ex S) \<and> dmul engine_ex u (dlong engine_ex S) < of_int S"
proof -
  from assms have "0 \<le> u * of_int S" by simp
  moreover from assms have "u * of_int S < 1 * of_int S"
    by (intro mult_strict_right_mono) simp_all
  ultimately show ?thesis by (simp add: engine_ex_def)
qed

lemma skewed_salted_nth:
  assumes "distinct (columns df)" "''join_col'' \<in> set (columns df)"
    "''salted_col'' \<notin> set (columns df)" "castable (key_type df)"
  shows "\<exists>a. skewed_salted en seed_no S df = Inr a
           \<and> columns a = columns df @ [''salted_col'']
           \<and> length (rows a) = length (rows df)
           \<and> (\<forall>p < length (rows df).
                 rows a ! p = rows df ! p
                   @ [salted_key en (cell (columns df) ''join_col'' (rows df ! p))
                        (salt_index en seed_no S df p)])"
  by (simp add: skewed_salted_eq [OF assms] nth_enumerate_eq)

lemma small_salted_mem:
  assumes "wf_df df" "''join_col'' \<in> set (columns df)"
    "''salted_col'' \<notin> set (columns df)" "''id'' \<notin> set (columns df)"
    "castable (key_type df)"
  shows "\<exists>b. small_df_salted en S df = Inr b
           \<and> columns b = without [''join_col''] (columns df) (columns df) @ [''salted_col'']
           \<and> rows b = map (\<lambda>(q, j). without [''join_col''] (columns df) q
                                      @ [salted_key en (cell (columns df) ''join_col'' q) (int j)])
                         (List.product (rows df) [0..<nat S])"
  by (simp add: small_df_salted_eq [OF assms])

lemma cast_string_not_Null:
  "castable (type_of k) \<Longrightarrow> k \<noteq> Null \<Longrightarrow> \<exists>t. cast_string en k = StrV t"
  by (cases k) simp_all

lemma salted_key_text:
  "cast_string en k = StrV t \<Longrightarrow> salted_key en k i = StrV (t @ ''-'' @ cast_long i)"
  by (simp add: salted_key_def F_concat_def)

section \<open>What the salted join reads of the engine and of the partitions\<close>












section \<open>The key with a type that has no text\<close>

lemma skewed_salted_mismatch:
  assumes "distinct (columns df)" "''join_col'' \<in> set (columns df)"
    and "\<not> castable (key_type df)"
  shows "skewed_salted en seed_no S df = Inl DataTypeMismatch"
proof -
  have "typeof (col_type (columns df) (dtypes df))
          (Concat [Col ''join_col'', Lit (StrV ''-''),
                   Floor (Mul (Rand (Some seed_no)) (Lit (LongV S)))]) = Inl DataTypeMismatch"
    using assms(3) by (simp only: typeof_skewed_key key_type_def if_False)
  then show ?thesis
    using assms(1,2) by (simp add: skewed_salted_def withColumn_def resolve_distinct del: typeof.simps)
qed

lemma small_df_salted_mismatch:
  assumes "distinct (columns df)" "''join_col'' \<in> set (columns df)"
    and "length (dtypes df) = length (columns df)" "''id'' \<notin> set (columns df)"
    and "\<not> castable (key_type df)"
  shows "small_df_salted en S df = Inl DataTypeMismatch"
proof -
  let ?cols = "columns df" and ?tys = "dtypes df"
  let ?x = "crossJoin en df (salt_df en S)"
  let ?e = "Concat [Col ''join_col'', Lit (StrV ''-''), Col ''id'']"
  have cx: "columns ?x = ?cols @ [''id'']" and tx: "dtypes ?x = ?tys @ [LongT]"
    by (simp_all add: crossJoin_salt_df)
  have an: "analyse (columns ?x) (col_refs ?e) = None"
    using assms(1,2,4) by (simp add: cx resolve_distinct)
  have t1: "col_type (?cols @ [''id'']) (?tys @ [LongT]) ''join_col'' = key_type df"
    unfolding key_type_def using assms(3,2) by (rule col_type_append_left)
  have ty: "typeof (col_type (columns ?x) (dtypes ?x)) ?e = Inl DataTypeMismatch"
    using assms(5) by (simp only: typeof_small_key cx tx t1 simp_thms if_False)
  show ?thesis
    unfolding small_df_salted_def
    by (simp add: withColumn_def an ty del: typeof.simps col_refs.simps)
qed

section \<open>The share of every key\<close>



section \<open>The frames of the tutorial\<close>

lemma skewed_df_ex_ok:
  "wf_df skewed_df_ex" "''join_col'' \<in> set (columns skewed_df_ex)"
  "''salted_col'' \<notin> set (columns skewed_df_ex)"
  by (simp_all add: wf_df_def skewed_df_ex_def has_type_def)

lemma small_df_ex_ok:
  "wf_df small_df_ex" "''join_col'' \<in> set (columns small_df_ex)"
  "''salted_col'' \<notin> set (columns small_df_ex)" "''id'' \<notin> set (columns small_df_ex)"
  by (simp_all add: wf_df_def small_df_ex_def has_type_def)

lemma key_type_ex: "key_type skewed_df_ex = StringT" "key_type small_df_ex = StringT"
  by (simp_all add: key_type_def col_type_def skewed_df_ex_def small_df_ex_def)

lemma engine_ex_unit: "\<forall>g k. 0 \<le> prng engine_ex g k \<and> prng engine_ex g k < 1"
  by (simp add: engine_ex_range)

lemma engine_ex_below:
  "\<forall>u. 0 \<le> u \<and> u < 1 \<longrightarrow>
     0 \<le> dmul engine_ex u (dlong engine_ex 10) \<and> dmul engine_ex u (dlong engine_ex 10) < of_int 10"
  using engine_ex_product [of _ 10] by simp

section \<open>The claims\<close>

text \<open>
  C1, as the code has it. The direct join compares a bigint key with a text key as
  numbers: the text is cast to bigint, so the key \<open>7\<close> meets the text \<^verbatim>\<open>07\<close> (line 130
  on these two frames returns the pair). The salted join compares the salted texts
  \<^verbatim>\<open>7-3\<close> and \<^verbatim>\<open>07-3\<close>, which differ: line 362 returns the skewed row with a null
  \<^verbatim>\<open>number_col\<close>. The two results are not the same rows.
\<close>

theorem mixed_key_types_counterexample:
  "map_sum id rows (joined_df engine_ex
       \<lparr>columns = [''id'', ''join_col''], dtypes = [LongT, LongT],
        rows = [ [LongV 0, LongV 7]], parts = [1]\<rparr>
       \<lparr>columns = [''join_col'', ''number_col''], dtypes = [StringT, LongT],
        rows = [ [StrV ''07'', LongV 1]], parts = [1]\<rparr>)
     = Inr [ [LongV 7, LongV 0, LongV 1]]
   \<and> map_sum id rows (salted_join_df engine_ex 123 10
       \<lparr>columns = [''id'', ''join_col''], dtypes = [LongT, LongT],
        rows = [ [LongV 0, LongV 7]], parts = [1]\<rparr>
       \<lparr>columns = [''join_col'', ''number_col''], dtypes = [StringT, LongT],
        rows = [ [StrV ''07'', LongV 1]], parts = [1]\<rparr>)
     = Inr [ [StrV ''7-3'', LongV 0, LongV 7, Null]]"
  by code_simp

text \<open>
  C1, amended. For well-formed frames whose key columns have the same type, text or
  bigint, and every salt factor \<open>S \<ge> 1\<close>, the salted join (line 362: the skewed side
  salted with the index \<open>\<lfloor>rand * S\<rfloor>\<close>, the small side exploded to all \<open>S\<close> indices, a
  left join on \<^verbatim>\<open>salted_col\<close>) and the direct left join on \<^verbatim>\<open>join_col\<close> (line 130) both
  succeed, and the salted result, with \<^verbatim>\<open>salted_col\<close> dropped and the columns of the
  direct join selected, has the same columns and the same multiset of rows as the direct
  join. \<open>S = 1\<close> is an instance: the two results then differ by the extra column only.
  The engine is any whose generator draws from \<open>[0, 1)\<close> and whose double product of
  such a draw and \<open>S\<close> stays below \<open>S\<close>.
\<close>

theorem salted_join_equivalent:
  assumes "wf_df skewed_df" and "''join_col'' \<in> set (columns skewed_df)"
    and "''salted_col'' \<notin> set (columns skewed_df)"
    and "wf_df small_df" and "''join_col'' \<in> set (columns small_df)"
    and "''salted_col'' \<notin> set (columns small_df)" and "''id'' \<notin> set (columns small_df)"
    and "set (columns skewed_df) \<inter> set (columns small_df) \<subseteq> {''join_col''}"
    and "same_key_type skewed_df small_df" and "1 \<le> S"
    and "\<forall>g k. 0 \<le> prng en g k \<and> prng en g k < 1"
    and "\<forall>u. 0 \<le> u \<and> u < 1 \<longrightarrow>
           0 \<le> dmul en u (dlong en S) \<and> dmul en u (dlong en S) < of_int S"
  shows "\<exists>out base sel.
           salted_join_df en seed_no S skewed_df small_df = Inr out
           \<and> joined_df en skewed_df small_df = Inr base
           \<and> select (columns base) (drop_cols [''salted_col''] out) = Inr sel
           \<and> columns sel = columns base
           \<and> mset (rows sel) = mset (rows base)"
proof -
  have i: "\<And>p. 0 \<le> salt_index en seed_no S skewed_df p \<and> salt_index en seed_no S skewed_df p < S"
    using assms(11,12) by (intro salt_index_range) blast+
  from salted_join_select [OF assms(1-9) i]
  obtain out base sel where "salted_join_df en seed_no S skewed_df small_df = Inr out"
    "joined_df en skewed_df small_df = Inr base"
    "select (columns base) (drop_cols [''salted_col''] out) = Inr sel"
    "columns sel = columns base" "rows sel = rows base"
    by blast
  then show ?thesis by auto
qed

theorem salted_join_equivalent_witness:
  "wf_df skewed_df_ex \<and> ''join_col'' \<in> set (columns skewed_df_ex)
   \<and> ''salted_col'' \<notin> set (columns skewed_df_ex)
   \<and> wf_df small_df_ex \<and> ''join_col'' \<in> set (columns small_df_ex)
   \<and> ''salted_col'' \<notin> set (columns small_df_ex) \<and> ''id'' \<notin> set (columns small_df_ex)
   \<and> set (columns skewed_df_ex) \<inter> set (columns small_df_ex) \<subseteq> {''join_col''}
   \<and> same_key_type skewed_df_ex small_df_ex \<and> (1::int) \<le> 10
   \<and> (\<forall>g k. 0 \<le> prng engine_ex g k \<and> prng engine_ex g k < 1)
   \<and> (\<exists>out base sel.
           salted_join_df engine_ex 123 10 skewed_df_ex small_df_ex = Inr out
           \<and> joined_df engine_ex skewed_df_ex small_df_ex = Inr base
           \<and> select (columns base) (drop_cols [''salted_col''] out) = Inr sel
           \<and> columns sel = columns base
           \<and> mset (rows sel) = mset (rows base))"
proof -
  note a = skewed_df_ex_ok and b = small_df_ex_ok
  have c: "set (columns skewed_df_ex) \<inter> set (columns small_df_ex) \<subseteq> {''join_col''}"
    by (simp add: skewed_df_ex_def small_df_ex_def)
  have t: "same_key_type skewed_df_ex small_df_ex"
    by (simp add: same_key_type_def key_type_ex)
  have s: "(1::int) \<le> 10" by simp
  note u = engine_ex_unit and m = engine_ex_below
  from salted_join_equivalent [OF a b c t s u m] a b c t s u m show ?thesis
    by blast
qed

text \<open>
  C2. After the two transforms (lines 232 and 305), every row of the skewed side carries
  the salted key of its own key and of an index \<open>i\<close> in \<open>[0, S)\<close>, and for every row
  of the small side with the same non-null key the exploded copy of that row at index
  \<open>i\<close> is a join partner of it under \<^verbatim>\<open>salted_col\<close>: the small side enumerates all
  \<open>S\<close> indices. So a key present on both sides has a salted key present on both sides.
  The key columns are of a type that has a text.
\<close>

theorem salted_key_coverage:
  assumes "wf_df skewed_df" and "''join_col'' \<in> set (columns skewed_df)"
    and "''salted_col'' \<notin> set (columns skewed_df)"
    and "wf_df small_df" and "''join_col'' \<in> set (columns small_df)"
    and "''salted_col'' \<notin> set (columns small_df)" and "''id'' \<notin> set (columns small_df)"
    and "castable (key_type skewed_df)" and "castable (key_type small_df)"
    and "1 \<le> S"
    and "\<forall>g k. 0 \<le> prng en g k \<and> prng en g k < 1"
    and "\<forall>u. 0 \<le> u \<and> u < 1 \<longrightarrow>
           0 \<le> dmul en u (dlong en S) \<and> dmul en u (dlong en S) < of_int S"
  shows "\<exists>a b. skewed_salted en seed_no S skewed_df = Inr a
           \<and> small_df_salted en S small_df = Inr b
           \<and> length (rows a) = length (rows skewed_df)
           \<and> (\<forall>p < length (rows skewed_df). \<exists>i.
                 0 \<le> i \<and> i < S
                 \<and> rows a ! p = rows skewed_df ! p
                      @ [salted_key en (cell (columns skewed_df) ''join_col'' (rows skewed_df ! p)) i]
                 \<and> (\<forall>q \<in> set (rows small_df).
                       cell (columns skewed_df) ''join_col'' (rows skewed_df ! p) \<noteq> Null
                       \<and> cell (columns small_df) ''join_col'' q
                           = cell (columns skewed_df) ''join_col'' (rows skewed_df ! p)
                       \<longrightarrow> without [''join_col''] (columns small_df) q
                             @ [salted_key en (cell (columns small_df) ''join_col'' q) i]
                           \<in> set (partners en StringT ''salted_col'' b
                                   (salted_key en
                                      (cell (columns skewed_df) ''join_col'' (rows skewed_df ! p)) i))))"
proof -
  let ?ca = "columns skewed_df" and ?cb = "columns small_df"
  let ?cb' = "without [''join_col''] ?cb ?cb"
  let ?w = "without [''join_col''] ?cb"
  let ?ix = "salt_index en seed_no S skewed_df"
  from assms(1) have da: "distinct ?ca" by (simp add: wf_df_def)
  from assms(4) have lb: "\<And>q. q \<in> set (rows small_df) \<Longrightarrow> length q = length ?cb"
    by (simp add: wf_df_def)
  have lw: "\<And>q. q \<in> set (rows small_df) \<Longrightarrow> length (?w q) = length ?cb'"
    by (rule length_without) (rule lb)
  have sb': "''salted_col'' \<notin> set ?cb'" using assms(6) by (simp add: set_without)
  from skewed_salted_nth [OF da assms(2,3,8), of en seed_no S]
  obtain a where a: "skewed_salted en seed_no S skewed_df = Inr a"
    "length (rows a) = length (rows skewed_df)"
    "\<And>p. p < length (rows skewed_df) \<Longrightarrow>
        rows a ! p = rows skewed_df ! p @ [salted_key en (cell ?ca ''join_col'' (rows skewed_df ! p)) (?ix p)]"
    by blast
  from small_salted_mem [OF assms(4-7,9), of en S]
  obtain b where b: "small_df_salted en S small_df = Inr b"
    "columns b = ?cb' @ [''salted_col'']"
    "rows b = map (\<lambda>(q, j). ?w q @ [salted_key en (cell ?cb ''join_col'' q) (int j)])
                (List.product (rows small_df) [0..<nat S])"
    by blast
  have ix: "0 \<le> ?ix p \<and> ?ix p < S" for p
    using assms(11,12) by (intro salt_index_range) blast+
  have cover: "?w q @ [salted_key en (cell ?cb ''join_col'' q) (?ix p)]
                 \<in> set (partners en StringT ''salted_col'' b (salted_key en k (?ix p)))"
    if q: "q \<in> set (rows small_df)" and k: "k \<noteq> Null" and e: "cell ?cb ''join_col'' q = k"
    for q k p
  proof -
    from ix [of p] have "nat (?ix p) \<in> set [0..<nat S]" by auto
    with q have "(q, nat (?ix p)) \<in> set (List.product (rows small_df) [0..<nat S])" by simp
    then have "(\<lambda>(q, j). ?w q @ [salted_key en (cell ?cb ''join_col'' q) (int j)]) (q, nat (?ix p))
                 \<in> set (rows b)"
      unfolding b(3) set_map by (rule imageI)
    with ix [of p] have m: "?w q @ [salted_key en (cell ?cb ''join_col'' q) (?ix p)] \<in> set (rows b)"
      by simp
    have c: "cell (columns b) ''salted_col'' (?w q @ [salted_key en k (?ix p)]) = salted_key en k (?ix p)"
      unfolding b(2) using lw [OF q] sb' by (rule cell_last)
    have "has_type (key_type small_df) k"
      using wf_key_typed [OF assms(4,5) q] e by simp
    then have "castable (type_of k)"
      using assms(9) by (rule has_type_castable)
    then have "salted_key en k (?ix p) \<noteq> Null"
      using k by (simp add: salted_key_eq_Null)
    with m c e show ?thesis
      by (simp add: partners_text)
  qed
  show ?thesis
    using a b(1) ix cover by (intro exI [of _ a] exI [of _ b]) (auto intro!: exI [of _ "?ix _"])
qed

theorem salted_key_coverage_witness:
  "wf_df skewed_df_ex \<and> ''join_col'' \<in> set (columns skewed_df_ex)
   \<and> ''salted_col'' \<notin> set (columns skewed_df_ex)
   \<and> wf_df small_df_ex \<and> ''join_col'' \<in> set (columns small_df_ex)
   \<and> ''salted_col'' \<notin> set (columns small_df_ex) \<and> ''id'' \<notin> set (columns small_df_ex)
   \<and> castable (key_type skewed_df_ex) \<and> castable (key_type small_df_ex)
   \<and> (1::int) \<le> 10
   \<and> (\<forall>g k. 0 \<le> prng engine_ex g k \<and> prng engine_ex g k < 1)
   \<and> (\<exists>a b. skewed_salted engine_ex 123 10 skewed_df_ex = Inr a
           \<and> small_df_salted engine_ex 10 small_df_ex = Inr b
           \<and> length (rows a) = length (rows skewed_df_ex)
           \<and> (\<forall>p < length (rows skewed_df_ex). \<exists>i.
                 0 \<le> i \<and> i < 10
                 \<and> rows a ! p = rows skewed_df_ex ! p
                      @ [salted_key engine_ex
                           (cell (columns skewed_df_ex) ''join_col'' (rows skewed_df_ex ! p)) i]
                 \<and> (\<forall>q \<in> set (rows small_df_ex).
                       cell (columns skewed_df_ex) ''join_col'' (rows skewed_df_ex ! p) \<noteq> Null
                       \<and> cell (columns small_df_ex) ''join_col'' q
                           = cell (columns skewed_df_ex) ''join_col'' (rows skewed_df_ex ! p)
                       \<longrightarrow> without [''join_col''] (columns small_df_ex) q
                             @ [salted_key engine_ex (cell (columns small_df_ex) ''join_col'' q) i]
                           \<in> set (partners engine_ex StringT ''salted_col'' b
                                   (salted_key engine_ex
                                      (cell (columns skewed_df_ex) ''join_col''
                                         (rows skewed_df_ex ! p)) i)))))"
proof -
  note a = skewed_df_ex_ok and b = small_df_ex_ok
  have k: "castable (key_type skewed_df_ex)" "castable (key_type small_df_ex)"
    by (simp_all add: key_type_ex)
  have s: "(1::int) \<le> 10" by simp
  note u = engine_ex_unit and m = engine_ex_below
  from salted_key_coverage [OF a b k s u m] a b k s u m show ?thesis
    by blast
qed

text \<open>
  C3. For a well-formed small frame of \<open>N\<close> rows and a salt factor \<open>S \<ge> 1\<close>, the
  small-side transform (cross join with \<^verbatim>\<open>spark.range(S)\<close>, salted column, drop) returns
  a frame of exactly \<open>N \<times> S\<close> rows: one row for every pair of an input row and a salt
  index in \<open>[0, S)\<close>, holding the row's other columns and the salted key of that index.
  The key column is of a type that has a text.
\<close>

theorem small_side_explosion:
  assumes "wf_df small_df" and "''join_col'' \<in> set (columns small_df)"
    and "''salted_col'' \<notin> set (columns small_df)" and "''id'' \<notin> set (columns small_df)"
    and "castable (key_type small_df)" and "1 \<le> S"
  shows "\<exists>d. small_df_salted en S small_df = Inr d
           \<and> int (length (rows d)) = int (length (rows small_df)) * S
           \<and> rows d = map (\<lambda>(q, j). without [''join_col''] (columns small_df) q
                                     @ [salted_key en (cell (columns small_df) ''join_col'' q) (int j)])
                        (List.product (rows small_df) [0..<nat S])"
  using assms(6) by (simp add: small_df_salted_eq [OF assms(1-5)])

theorem small_side_explosion_witness:
  "wf_df small_df_ex \<and> ''join_col'' \<in> set (columns small_df_ex)
   \<and> ''salted_col'' \<notin> set (columns small_df_ex) \<and> ''id'' \<notin> set (columns small_df_ex)
   \<and> castable (key_type small_df_ex) \<and> (1::int) \<le> 10
   \<and> (\<exists>d. small_df_salted engine_ex 10 small_df_ex = Inr d \<and> int (length (rows d)) = 50)"
proof -
  note h = small_df_ex_ok
  have k: "castable (key_type small_df_ex)"
    by (simp add: key_type_ex)
  have n: "int (length (rows small_df_ex)) * 10 = 50"
    by (simp add: small_df_ex_def)
  from small_side_explosion [OF h k, of 10 engine_ex] n h k show ?thesis
    by auto
qed

text \<open>
  C4, as the code has it. \<^verbatim>\<open>F.concat\<close> is null as soon as one argument is null. A row
  whose key is null gets a null salted key on either side, not a text that ends in
  \<^verbatim>\<open>-\<close> and an index: on the skewed side (line 232) the row \<open>(0, null)\<close>, on the small
  side (line 305) both copies of the row \<open>(null, 9)\<close>.
\<close>

theorem null_key_counterexample:
  "map_sum id rows (skewed_salted engine_ex 123 10
       \<lparr>columns = [''id'', ''join_col''], dtypes = [LongT, StringT],
        rows = [ [LongV 0, Null], [LongV 1, StrV ''A'']], parts = [2]\<rparr>)
     = Inr [ [LongV 0, Null, Null], [LongV 1, StrV ''A'', StrV ''A-0'']]
   \<and> map_sum id rows (small_df_salted engine_ex 2
       \<lparr>columns = [''join_col'', ''number_col''], dtypes = [StringT, LongT],
        rows = [ [Null, LongV 9]], parts = [1]\<rparr>)
     = Inr [ [LongV 9, Null], [LongV 9, Null]]"
  by code_simp

text \<open>
  C4, amended. On both sides the salted key of a row with a non-null key is the key cast
  to text, then \<^verbatim>\<open>-\<close>, then the decimal text of a salt index in \<open>[0, S)\<close>; the salted
  key of a row with a null key is null. On the skewed side (line 232) the index of the
  row in position \<open>p\<close> is the floor of the double product of the row's draw and \<open>S\<close>;
  on the small side (line 305) every row occurs once with every index \<open>j < S\<close>. The key
  columns are of a type that has a text, and the engine is any whose generator draws
  from \<open>[0, 1)\<close> and whose double product of such a draw and \<open>S\<close> stays below \<open>S\<close>.
\<close>

theorem salted_key_format:
  assumes "wf_df skewed_df" and "''join_col'' \<in> set (columns skewed_df)"
    and "''salted_col'' \<notin> set (columns skewed_df)"
    and "wf_df small_df" and "''join_col'' \<in> set (columns small_df)"
    and "''salted_col'' \<notin> set (columns small_df)" and "''id'' \<notin> set (columns small_df)"
    and "castable (key_type skewed_df)" and "castable (key_type small_df)"
    and "1 \<le> S"
    and "\<forall>g k. 0 \<le> prng en g k \<and> prng en g k < 1"
    and "\<forall>u. 0 \<le> u \<and> u < 1 \<longrightarrow>
           0 \<le> dmul en u (dlong en S) \<and> dmul en u (dlong en S) < of_int S"
  shows "\<exists>a b. skewed_salted en seed_no S skewed_df = Inr a
           \<and> small_df_salted en S small_df = Inr b
           \<and> length (rows a) = length (rows skewed_df)
           \<and> (\<forall>p < length (rows skewed_df).
                 0 \<le> salt_index en seed_no S skewed_df p
                 \<and> salt_index en seed_no S skewed_df p < S
                 \<and> cell (columns a) ''join_col'' (rows a ! p)
                     = cell (columns skewed_df) ''join_col'' (rows skewed_df ! p)
                 \<and> (cell (columns a) ''join_col'' (rows a ! p) \<noteq> Null
                       \<longrightarrow> (\<exists>t. cast_string en (cell (columns a) ''join_col'' (rows a ! p)) = StrV t
                              \<and> cell (columns a) ''salted_col'' (rows a ! p)
                                  = StrV (t @ ''-'' @ cast_long (salt_index en seed_no S skewed_df p))))
                 \<and> (cell (columns a) ''join_col'' (rows a ! p) = Null
                       \<longrightarrow> cell (columns a) ''salted_col'' (rows a ! p) = Null))
           \<and> rows b = map (\<lambda>(q, j). without [''join_col''] (columns small_df) q
                                     @ [salted_key en (cell (columns small_df) ''join_col'' q) (int j)])
                        (List.product (rows small_df) [0..<nat S])
           \<and> (\<forall>q \<in> set (rows small_df). \<forall>j < nat S.
                 0 \<le> int j \<and> int j < S
                 \<and> (cell (columns small_df) ''join_col'' q \<noteq> Null
                       \<longrightarrow> (\<exists>t. cast_string en (cell (columns small_df) ''join_col'' q) = StrV t
                              \<and> cell (columns b) ''salted_col''
                                  (without [''join_col''] (columns small_df) q
                                     @ [salted_key en (cell (columns small_df) ''join_col'' q) (int j)])
                                = StrV (t @ ''-'' @ cast_long (int j))))
                 \<and> (cell (columns small_df) ''join_col'' q = Null
                       \<longrightarrow> cell (columns b) ''salted_col''
                                  (without [''join_col''] (columns small_df) q
                                     @ [salted_key en (cell (columns small_df) ''join_col'' q) (int j)])
                                = Null))"
proof -
  let ?ca = "columns skewed_df" and ?cb = "columns small_df"
  let ?cb' = "without [''join_col''] ?cb ?cb"
  let ?w = "without [''join_col''] ?cb"
  let ?ix = "salt_index en seed_no S skewed_df"
  from assms(1) have da: "distinct ?ca"
    and la: "\<And>r. r \<in> set (rows skewed_df) \<Longrightarrow> length r = length ?ca"
    by (simp_all add: wf_df_def)
  from assms(4) have lb: "\<And>q. q \<in> set (rows small_df) \<Longrightarrow> length q = length ?cb"
    by (simp add: wf_df_def)
  have lw: "\<And>q. q \<in> set (rows small_df) \<Longrightarrow> length (?w q) = length ?cb'"
    by (rule length_without) (rule lb)
  have sb': "''salted_col'' \<notin> set ?cb'" using assms(6) by (simp add: set_without)
  from skewed_salted_nth [OF da assms(2,3,8), of en seed_no S]
  obtain a where a: "skewed_salted en seed_no S skewed_df = Inr a"
    "columns a = ?ca @ [''salted_col'']"
    "length (rows a) = length (rows skewed_df)"
    "\<And>p. p < length (rows skewed_df) \<Longrightarrow>
        rows a ! p = rows skewed_df ! p @ [salted_key en (cell ?ca ''join_col'' (rows skewed_df ! p)) (?ix p)]"
    by blast
  from small_salted_mem [OF assms(4-7,9), of en S]
  obtain b where b: "small_df_salted en S small_df = Inr b"
    and cb: "columns b = ?cb' @ [''salted_col'']"
    and rb: "rows b = map (\<lambda>(q, j). ?w q @ [salted_key en (cell ?cb ''join_col'' q) (int j)])
                         (List.product (rows small_df) [0..<nat S])"
    by blast
  have ix: "0 \<le> ?ix p \<and> ?ix p < S" for p
    using assms(11,12) by (intro salt_index_range) blast+
  have ka: "castable (type_of (cell ?ca ''join_col'' (rows skewed_df ! p)))"
    if p: "p < length (rows skewed_df)" for p
  proof -
    from p have "rows skewed_df ! p \<in> set (rows skewed_df)" by simp
    from wf_key_typed [OF assms(1,2) this] assms(8) show ?thesis
      by (rule has_type_castable)
  qed
  have kb: "castable (type_of (cell ?cb ''join_col'' q))" if q: "q \<in> set (rows small_df)" for q
    using wf_key_typed [OF assms(4,5) q] assms(9) by (rule has_type_castable)
  have sk: "cell (columns a) ''join_col'' (rows a ! p) = cell ?ca ''join_col'' (rows skewed_df ! p)
          \<and> cell (columns a) ''salted_col'' (rows a ! p)
              = salted_key en (cell ?ca ''join_col'' (rows skewed_df ! p)) (?ix p)"
    if p: "p < length (rows skewed_df)" for p
  proof -
    let ?r = "rows skewed_df ! p"
    from p have l: "length ?r = length ?ca" by (intro la) simp
    have 1: "cell (columns a) ''join_col'' (rows a ! p) = cell ?ca ''join_col'' ?r"
      unfolding a(2) a(4) [OF p] using l assms(2) by (rule cell_append_left)
    have 2: "cell (columns a) ''salted_col'' (rows a ! p)
               = salted_key en (cell ?ca ''join_col'' ?r) (?ix p)"
      unfolding a(2) a(4) [OF p] using l assms(3) by (rule cell_last)
    from 1 2 show ?thesis by blast
  qed
  have sm: "cell (columns b) ''salted_col'' (?w q @ [salted_key en (cell ?cb ''join_col'' q) (int j)])
              = salted_key en (cell ?cb ''join_col'' q) (int j)"
    if q: "q \<in> set (rows small_df)" for q j
    unfolding cb using lw [OF q] sb' by (rule cell_last)
  have P1: "\<forall>p < length (rows skewed_df).
                 0 \<le> ?ix p \<and> ?ix p < S
                 \<and> cell (columns a) ''join_col'' (rows a ! p)
                     = cell ?ca ''join_col'' (rows skewed_df ! p)
                 \<and> (cell (columns a) ''join_col'' (rows a ! p) \<noteq> Null
                       \<longrightarrow> (\<exists>t. cast_string en (cell (columns a) ''join_col'' (rows a ! p)) = StrV t
                              \<and> cell (columns a) ''salted_col'' (rows a ! p)
                                  = StrV (t @ ''-'' @ cast_long (?ix p))))
                 \<and> (cell (columns a) ''join_col'' (rows a ! p) = Null
                       \<longrightarrow> cell (columns a) ''salted_col'' (rows a ! p) = Null)"
  proof (intro allI impI conjI)
    fix p assume p: "p < length (rows skewed_df)"
    let ?k = "cell ?ca ''join_col'' (rows skewed_df ! p)"
    from sk [OF p] have 1: "cell (columns a) ''join_col'' (rows a ! p) = ?k"
      and 2: "cell (columns a) ''salted_col'' (rows a ! p) = salted_key en ?k (?ix p)"
      by blast+
    show "0 \<le> ?ix p" "?ix p < S" using ix [of p] by blast+
    show "cell (columns a) ''join_col'' (rows a ! p) = ?k" by (rule 1)
    show "\<exists>t. cast_string en (cell (columns a) ''join_col'' (rows a ! p)) = StrV t
              \<and> cell (columns a) ''salted_col'' (rows a ! p) = StrV (t @ ''-'' @ cast_long (?ix p))"
      if "cell (columns a) ''join_col'' (rows a ! p) \<noteq> Null"
    proof -
      from that have "?k \<noteq> Null" unfolding 1 .
      from cast_string_not_Null [OF ka [OF p] this, of en]
      obtain t where t: "cast_string en ?k = StrV t" by blast
      then have "salted_key en ?k (?ix p) = StrV (t @ ''-'' @ cast_long (?ix p))"
        by (rule salted_key_text)
      with t show ?thesis unfolding 1 2 by blast
    qed
    show "cell (columns a) ''salted_col'' (rows a ! p) = Null"
      if "cell (columns a) ''join_col'' (rows a ! p) = Null"
      using that unfolding 1 2 by simp
  qed
  have P2: "\<forall>q \<in> set (rows small_df). \<forall>j < nat S.
                 0 \<le> int j \<and> int j < S
                 \<and> (cell ?cb ''join_col'' q \<noteq> Null
                       \<longrightarrow> (\<exists>t. cast_string en (cell ?cb ''join_col'' q) = StrV t
                              \<and> cell (columns b) ''salted_col''
                                  (?w q @ [salted_key en (cell ?cb ''join_col'' q) (int j)])
                                = StrV (t @ ''-'' @ cast_long (int j))))
                 \<and> (cell ?cb ''join_col'' q = Null
                       \<longrightarrow> cell (columns b) ''salted_col''
                                  (?w q @ [salted_key en (cell ?cb ''join_col'' q) (int j)])
                                = Null)"
  proof (intro ballI allI impI conjI)
    fix q j assume q: "q \<in> set (rows small_df)"
    let ?k = "cell ?cb ''join_col'' q"
    show "\<exists>t. cast_string en ?k = StrV t
              \<and> cell (columns b) ''salted_col'' (?w q @ [salted_key en ?k (int j)])
                                = StrV (t @ ''-'' @ cast_long (int j))"
      if k: "?k \<noteq> Null"
    proof -
      from cast_string_not_Null [OF kb [OF q] k, of en]
      obtain t where t: "cast_string en ?k = StrV t" by blast
      then have "salted_key en ?k (int j) = StrV (t @ ''-'' @ cast_long (int j))"
        by (rule salted_key_text)
      with t show ?thesis unfolding sm [OF q] by blast
    qed
    show "cell (columns b) ''salted_col'' (?w q @ [salted_key en ?k (int j)]) = Null"
      if "?k = Null"
      unfolding sm [OF q] using that by simp
  qed simp_all
  from a(1) b a(3) P1 rb P2 show ?thesis
    by blast
qed

theorem salted_key_format_witness:
  "wf_df skewed_df_ex \<and> ''join_col'' \<in> set (columns skewed_df_ex)
   \<and> ''salted_col'' \<notin> set (columns skewed_df_ex)
   \<and> wf_df small_df_ex \<and> ''join_col'' \<in> set (columns small_df_ex)
   \<and> ''salted_col'' \<notin> set (columns small_df_ex) \<and> ''id'' \<notin> set (columns small_df_ex)
   \<and> castable (key_type skewed_df_ex) \<and> castable (key_type small_df_ex)
   \<and> (1::int) \<le> 10
   \<and> (\<forall>g k. 0 \<le> prng engine_ex g k \<and> prng engine_ex g k < 1)
   \<and> (4::nat) < length (rows skewed_df_ex)
   \<and> cell (columns skewed_df_ex) ''join_col'' (rows skewed_df_ex ! 4) \<noteq> Null
   \<and> salt_index engine_ex 123 10 skewed_df_ex 4 = 1
   \<and> (\<exists>a. skewed_salted engine_ex 123 10 skewed_df_ex = Inr a
          \<and> cell (columns a) ''join_col'' (rows a ! 4) = StrV ''E''
          \<and> cell (columns a) ''salted_col'' (rows a ! 4) = StrV ''E-1'')"
proof -
  note a = skewed_df_ex_ok and b = small_df_ex_ok
  have c: "castable (key_type skewed_df_ex)" "castable (key_type small_df_ex)"
    by (simp_all add: key_type_ex)
  have s: "(1::int) \<le> 10" by simp
  note u = engine_ex_unit and m = engine_ex_below
  have p: "(4::nat) < length (rows skewed_df_ex)"
    by (simp add: skewed_df_ex_def)
  have k: "cell (columns skewed_df_ex) ''join_col'' (rows skewed_df_ex ! 4) = StrV ''E''"
    by (simp add: skewed_df_ex_def cell_def)
  have i: "salt_index engine_ex 123 10 skewed_df_ex 4 = 1"
    by (simp add: salt_index_def draw_def locate_def engine_ex_def skewed_df_ex_def)
  have d: "cast_long 1 = ''1''"
    by (simp add: cast_long_def dec_nat_small digit_def)
  from salted_key_format [OF a b c s u m, of 123]
  obtain a' where a': "skewed_salted engine_ex 123 10 skewed_df_ex = Inr a'"
    and f: "\<forall>p < length (rows skewed_df_ex).
         cell (columns a') ''join_col'' (rows a' ! p)
           = cell (columns skewed_df_ex) ''join_col'' (rows skewed_df_ex ! p)
         \<and> (cell (columns a') ''join_col'' (rows a' ! p) \<noteq> Null
               \<longrightarrow> (\<exists>t. cast_string engine_ex (cell (columns a') ''join_col'' (rows a' ! p)) = StrV t
                      \<and> cell (columns a') ''salted_col'' (rows a' ! p)
                          = StrV (t @ ''-'' @ cast_long (salt_index engine_ex 123 10 skewed_df_ex p))))"
    by blast
  from f p have 1: "cell (columns a') ''join_col'' (rows a' ! 4) = StrV ''E''"
    by (simp add: k)
  from f p 1 have "\<exists>t. cast_string engine_ex (StrV ''E'') = StrV t
                      \<and> cell (columns a') ''salted_col'' (rows a' ! 4)
                          = StrV (t @ ''-'' @ cast_long (salt_index engine_ex 123 10 skewed_df_ex 4))"
    by (metis val.distinct(3))
  then have 2: "cell (columns a') ''salted_col'' (rows a' ! 4) = StrV ''E-1''"
    by (auto simp: i d)
  from a' 1 2 a b c s u m p k i show ?thesis
    by auto
qed

text \<open>
  C5, as the code has it. Line 362 is the last step of the script: nothing drops
  \<^verbatim>\<open>salted_col\<close> after the join. The claim that no salted-key column appears in the
  result fails on the frames of the tutorial: the salted join has the columns
  \<^verbatim>\<open>salted_col, id, join_col, number_col\<close>, the direct join \<^verbatim>\<open>join_col, id, number_col\<close>.
\<close>

theorem salted_col_kept_counterexample:
  "map_sum id columns (salted_join_df engine_ex 123 10 skewed_df_ex small_df_ex)
     = Inr [''salted_col'', ''id'', ''join_col'', ''number_col'']
   \<and> map_sum id columns (joined_df engine_ex skewed_df_ex small_df_ex)
     = Inr [''join_col'', ''id'', ''number_col'']"
proof -
  note a = skewed_df_ex_ok and b = small_df_ex_ok
  have c: "castable (key_type skewed_df_ex)" "castable (key_type small_df_ex)"
    by (simp_all add: key_type_ex)
  from salted_join_df_raw [OF a b c, of engine_ex 123 10]
  have 1: "map_sum id columns (salted_join_df engine_ex 123 10 skewed_df_ex small_df_ex)
     = Inr [''salted_col'', ''id'', ''join_col'', ''number_col'']"
    by (auto simp: skewed_df_ex_def small_df_ex_def without_self)
  from a b have d: "distinct (columns skewed_df_ex)" "distinct (columns small_df_ex)"
    by (simp_all add: wf_df_def)
  have t: "common_type (key_type skewed_df_ex) (key_type small_df_ex) = Some StringT"
    by (simp add: key_type_ex common_type_def)
  from joined_df_raw [OF d(1) a(2) d(2) b(2) t, of engine_ex]
  have 2: "map_sum id columns (joined_df engine_ex skewed_df_ex small_df_ex)
     = Inr [''join_col'', ''id'', ''number_col'']"
    by (auto simp: skewed_df_ex_def small_df_ex_def without_self)
  from 1 2 show ?thesis by simp
qed

text \<open>
  C5, amended. The result of the salted join keeps the salted key as its first column,
  followed by the columns of the skewed frame and the non-key columns of the small frame:
  its columns are those of the direct join and \<^verbatim>\<open>salted_col\<close>. The original key column is
  retained, and the index column of \<^verbatim>\<open>salt_df\<close> is not contributed (an \<^verbatim>\<open>id\<close> column is
  in the result only if the skewed frame has one). The key columns are of a type that has
  a text.
\<close>

theorem salted_join_keeps_salted_col:
  assumes "wf_df skewed_df" and "''join_col'' \<in> set (columns skewed_df)"
    and "''salted_col'' \<notin> set (columns skewed_df)"
    and "wf_df small_df" and "''join_col'' \<in> set (columns small_df)"
    and "''salted_col'' \<notin> set (columns small_df)" and "''id'' \<notin> set (columns small_df)"
    and "castable (key_type skewed_df)" and "castable (key_type small_df)"
  shows "\<exists>out base.
           salted_join_df en seed_no S skewed_df small_df = Inr out
           \<and> joined_df en skewed_df small_df = Inr base
           \<and> columns out = ''salted_col'' # columns skewed_df
                              @ filter (\<lambda>c. c \<noteq> ''join_col'') (columns small_df)
           \<and> set (columns out) = insert ''salted_col'' (set (columns base))
           \<and> ''salted_col'' \<notin> set (columns base)
           \<and> ''join_col'' \<in> set (columns out)
           \<and> (''id'' \<in> set (columns out) \<longleftrightarrow> ''id'' \<in> set (columns skewed_df))"
proof -
  from assms(1,4) have d: "distinct (columns skewed_df)" "distinct (columns small_df)"
    by (simp_all add: wf_df_def)
  from salted_join_df_raw [OF assms, of en seed_no S]
  obtain out where out: "salted_join_df en seed_no S skewed_df small_df = Inr out"
    "columns out = ''salted_col'' # columns skewed_df
                     @ filter (\<lambda>c. c \<noteq> ''join_col'') (columns small_df)"
    by (auto simp: without_self)
  from common_type_castable [OF assms(8,9)]
  obtain t where t: "common_type (key_type skewed_df) (key_type small_df) = Some t"
    by blast
  from joined_df_raw [OF d(1) assms(2) d(2) assms(5) t, of en]
  obtain base where base: "joined_df en skewed_df small_df = Inr base"
    "columns base = ''join_col'' # filter (\<lambda>c. c \<noteq> ''join_col'') (columns skewed_df)
                      @ filter (\<lambda>c. c \<noteq> ''join_col'') (columns small_df)"
    by (auto simp: without_self)
  have 1: "set (columns out) = insert ''salted_col'' (set (columns base))"
    using assms(2) by (auto simp: out(2) base(2))
  have 2: "''salted_col'' \<notin> set (columns base)"
    using assms(3,6) by (auto simp: base(2))
  have 3: "''join_col'' \<in> set (columns out)"
    using assms(2) by (simp add: out(2))
  have 4: "''id'' \<in> set (columns out) \<longleftrightarrow> ''id'' \<in> set (columns skewed_df)"
    using assms(7) by (auto simp: out(2))
  from out base 1 2 3 4 show ?thesis by blast
qed

theorem salted_join_keeps_salted_col_witness:
  "wf_df skewed_df_ex \<and> ''join_col'' \<in> set (columns skewed_df_ex)
   \<and> ''salted_col'' \<notin> set (columns skewed_df_ex)
   \<and> wf_df small_df_ex \<and> ''join_col'' \<in> set (columns small_df_ex)
   \<and> ''salted_col'' \<notin> set (columns small_df_ex) \<and> ''id'' \<notin> set (columns small_df_ex)
   \<and> castable (key_type skewed_df_ex) \<and> castable (key_type small_df_ex)
   \<and> (\<exists>out base.
         salted_join_df engine_ex 123 10 skewed_df_ex small_df_ex = Inr out
         \<and> joined_df engine_ex skewed_df_ex small_df_ex = Inr base
         \<and> columns out = [''salted_col'', ''id'', ''join_col'', ''number_col'']
         \<and> set (columns out) = insert ''salted_col'' (set (columns base)))"
proof -
  note a = skewed_df_ex_ok and b = small_df_ex_ok
  have c: "castable (key_type skewed_df_ex)" "castable (key_type small_df_ex)"
    by (simp_all add: key_type_ex)
  from salted_join_keeps_salted_col [OF a b c, of engine_ex 123 10]
  obtain out base where "salted_join_df engine_ex 123 10 skewed_df_ex small_df_ex = Inr out"
    "joined_df engine_ex skewed_df_ex small_df_ex = Inr base"
    "columns out = ''salted_col'' # columns skewed_df_ex
                     @ filter (\<lambda>c. c \<noteq> ''join_col'') (columns small_df_ex)"
    "set (columns out) = insert ''salted_col'' (set (columns base))"
    by blast
  moreover have "''salted_col'' # columns skewed_df_ex
                     @ filter (\<lambda>c. c \<noteq> ''join_col'') (columns small_df_ex)
                 = [''salted_col'', ''id'', ''join_col'', ''number_col'']"
    by (simp add: skewed_df_ex_def small_df_ex_def)
  ultimately show ?thesis using a b c by auto
qed



text \<open>
  C7. A key column of a type that \<^verbatim>\<open>F.concat\<close> cannot cast to text (a struct, an array
  or a map) makes the skewed-side transform of line 232 fail with the type error of the
  analysis, whatever the rows are and also when there are none; so does the small-side
  transform of line 305. No frame is returned and no key is turned into a text.
\<close>

theorem salt_transform_type_error:
  assumes "distinct (columns df)" and "''join_col'' \<in> set (columns df)"
    and "\<not> castable (key_type df)"
  shows "skewed_salted en seed_no S df = Inl DataTypeMismatch
         \<and> (length (dtypes df) = length (columns df) \<and> ''id'' \<notin> set (columns df)
              \<longrightarrow> small_df_salted en S df = Inl DataTypeMismatch)"
  using skewed_salted_mismatch [OF assms] small_df_salted_mismatch [OF assms(1,2) _ _ assms(3)]
  by blast

theorem salt_transform_type_error_witness:
  "distinct (columns \<lparr>columns = [''join_col'', ''number_col''], dtypes = [StructT, LongT],
                      rows = [ [StructV [StrV ''A'', LongV 1], LongV 5]], parts = [1]\<rparr>)
   \<and> ''join_col'' \<in> set (columns \<lparr>columns = [''join_col'', ''number_col''], dtypes = [StructT, LongT],
                      rows = [ [StructV [StrV ''A'', LongV 1], LongV 5]], parts = [1]\<rparr>)
   \<and> \<not> castable (key_type \<lparr>columns = [''join_col'', ''number_col''], dtypes = [StructT, LongT],
                      rows = [ [StructV [StrV ''A'', LongV 1], LongV 5]], parts = [1]\<rparr>)
   \<and> skewed_salted engine_ex 123 10
        \<lparr>columns = [''join_col'', ''number_col''], dtypes = [StructT, LongT],
         rows = [ [StructV [StrV ''A'', LongV 1], LongV 5]], parts = [1]\<rparr>
      = Inl DataTypeMismatch
   \<and> small_df_salted engine_ex 10
        \<lparr>columns = [''join_col'', ''number_col''], dtypes = [StructT, LongT],
         rows = [ [StructV [StrV ''A'', LongV 1], LongV 5]], parts = [1]\<rparr>
      = Inl DataTypeMismatch"
proof -
  let ?df = "\<lparr>columns = [''join_col'', ''number_col''], dtypes = [StructT, LongT],
              rows = [ [StructV [StrV ''A'', LongV 1], LongV 5]], parts = [1]\<rparr>"
  have h: "distinct (columns ?df)" "''join_col'' \<in> set (columns ?df)"
    "\<not> castable (key_type ?df)"
    by (simp_all add: key_type_def col_type_def)
  have s: "length (dtypes ?df) = length (columns ?df) \<and> ''id'' \<notin> set (columns ?df)"
    by simp
  from salt_transform_type_error [OF h, of engine_ex 123 10] h s show ?thesis
    by blast
qed




text \<open>
  C9. The salted key is injective on pairs of a text key and a salt index: for text keys
  \<open>k1\<close>, \<open>k2\<close> and salt indices \<open>i\<close>, \<open>j\<close> in \<open>[0, S)\<close>, equal values of
  \<^verbatim>\<open>F.concat(key, "-", index)\<close> force \<open>k1 = k2\<close> and \<open>i = j\<close>. The decimal text of
  an index has no \<^verbatim>\<open>-\<close>, so the text splits at its last \<^verbatim>\<open>-\<close>; salting never merges
  two keys or two indices.
\<close>

theorem salted_key_injective:
  assumes "0 \<le> i" "i < S" "0 \<le> j" "j < S"
    and "salted_key en (StrV k1) i = salted_key en (StrV k2) j"
  shows "k1 = k2 \<and> i = j"
  using assms salted_text_inj [of i j k1 k2]
  by (simp add: salted_key_def F_concat_def)

theorem salted_key_injective_witness:
  "(0::int) \<le> 3 \<and> (3::int) < 10
   \<and> salted_key engine_ex (StrV ''E'') 3 = StrV ''E-3''
   \<and> salted_key engine_ex (StrV ''E'') 3 = salted_key engine_ex (StrV ''E'') 3
   \<and> ''E'' = ''E'' \<and> (3::int) = 3"
  using salted_key_injective [of 3 10 3 engine_ex "''E''" "''E''"]
  by (simp add: salted_key_def F_concat_def cast_long_def dec_nat_small digit_def)

text \<open>
  C10. The small-side transform (line 313, \<^verbatim>\<open>.drop("id", "join_col")\<close>) returns a frame
  whose columns are the non-key columns of the small frame followed by \<^verbatim>\<open>salted_col\<close>,
  and whose rows hold the cells of those columns and the salted key: neither the name nor
  the cell of \<^verbatim>\<open>join_col\<close> or of the \<^verbatim>\<open>id\<close> of \<^verbatim>\<open>salt_df\<close> is left. In the joined
  result the columns after \<^verbatim>\<open>salted_col\<close> are those of the skewed frame and then the
  payload columns of the small side, so \<^verbatim>\<open>join_col\<close> occurs exactly once; every row is
  the salted key, a row of the skewed frame, and then the payload cells of a small row or
  nulls, and its \<^verbatim>\<open>join_col\<close> cell is the key of that skewed row. The key columns are of
  a type that has a text.
\<close>

theorem small_side_drops_key_and_index:
  assumes "wf_df skewed_df" and "''join_col'' \<in> set (columns skewed_df)"
    and "''salted_col'' \<notin> set (columns skewed_df)"
    and "wf_df small_df" and "''join_col'' \<in> set (columns small_df)"
    and "''salted_col'' \<notin> set (columns small_df)" and "''id'' \<notin> set (columns small_df)"
    and "castable (key_type skewed_df)" and "castable (key_type small_df)"
  shows "\<exists>b out.
           small_df_salted en S small_df = Inr b
           \<and> salted_join_df en seed_no S skewed_df small_df = Inr out
           \<and> columns b = filter (\<lambda>c. c \<noteq> ''join_col'') (columns small_df) @ [''salted_col'']
           \<and> ''join_col'' \<notin> set (columns b) \<and> ''id'' \<notin> set (columns b)
           \<and> rows b = map (\<lambda>(q, j). without [''join_col''] (columns small_df) q
                                     @ [salted_key en (cell (columns small_df) ''join_col'' q) (int j)])
                        (List.product (rows small_df) [0..<nat S])
           \<and> (\<forall>r \<in> set (rows b). length r = length (columns b))
           \<and> columns out = ''salted_col'' # columns skewed_df @ butlast (columns b)
           \<and> ''join_col'' \<notin> set (butlast (columns b))
           \<and> count_list (columns out) ''join_col'' = 1
           \<and> (\<forall>row \<in> set (rows out). \<exists>p t.
                 p < length (rows skewed_df)
                 \<and> row = salted_key en (cell (columns skewed_df) ''join_col'' (rows skewed_df ! p))
                           (salt_index en seed_no S skewed_df p) # rows skewed_df ! p @ t
                 \<and> (t = replicate (length (butlast (columns b))) Null
                    \<or> (\<exists>q \<in> set (rows small_df). t = without [''join_col''] (columns small_df) q))
                 \<and> cell (columns out) ''join_col'' row
                     = cell (columns skewed_df) ''join_col'' (rows skewed_df ! p))"
proof -
  let ?ca = "columns skewed_df" and ?cb = "columns small_df"
  let ?cb' = "without [''join_col''] ?cb ?cb"
  let ?w = "without [''join_col''] ?cb"
  let ?ix = "salt_index en seed_no S skewed_df"
  from assms(1) have d: "distinct ?ca"
    and la: "\<And>r. r \<in> set (rows skewed_df) \<Longrightarrow> length r = length ?ca"
    by (simp_all add: wf_df_def)
  from assms(4) have lb: "\<And>q. q \<in> set (rows small_df) \<Longrightarrow> length q = length ?cb"
    by (simp add: wf_df_def)
  have lw: "\<And>q. q \<in> set (rows small_df) \<Longrightarrow> length (?w q) = length ?cb'"
    by (rule length_without) (rule lb)
  from small_salted_mem [OF assms(4-7,9), of en S]
  obtain b where b: "small_df_salted en S small_df = Inr b"
    and cb0: "columns b = ?cb' @ [''salted_col'']"
    and rb: "rows b = map (\<lambda>(q, j). ?w q @ [salted_key en (cell ?cb ''join_col'' q) (int j)])
                         (List.product (rows small_df) [0..<nat S])"
    by blast
  have cb: "columns b = filter (\<lambda>c. c \<noteq> ''join_col'') ?cb @ [''salted_col'']"
    by (simp add: cb0 without_self)
  have bl: "butlast (columns b) = ?cb'"
    by (simp add: cb0)
  from salted_join_rows_shape [OF assms, of en seed_no S]
  obtain out where out: "salted_join_df en seed_no S skewed_df small_df = Inr out"
    and co: "columns out = ''salted_col'' # ?ca @ ?cb'"
    and ro: "\<And>row. row \<in> set (rows out) \<Longrightarrow> \<exists>p t.
           p < length (rows skewed_df)
           \<and> row = salted_key en (cell ?ca ''join_col'' (rows skewed_df ! p)) (?ix p)
                     # rows skewed_df ! p @ t
           \<and> (t = replicate (length ?cb') Null \<or> (\<exists>q \<in> set (rows small_df). t = ?w q))"
    by blast
  have 1: "''join_col'' \<notin> set (columns b) \<and> ''id'' \<notin> set (columns b)"
    using assms(7) by (simp add: cb)
  have 2: "columns out = ''salted_col'' # ?ca @ butlast (columns b)"
    by (simp only: co bl)
  have 3: "''join_col'' \<notin> set (butlast (columns b))"
    by (simp add: bl set_without)
  have 4: "count_list (columns out) ''join_col'' = 1"
    using d assms(2) by (simp add: co without_self count_list_distinct)
  have 5: "\<forall>r \<in> set (rows b). length r = length (columns b)"
    by (auto simp: rb cb0 lw)
  have 6: "\<forall>row \<in> set (rows out). \<exists>p t.
                 p < length (rows skewed_df)
                 \<and> row = salted_key en (cell ?ca ''join_col'' (rows skewed_df ! p)) (?ix p)
                           # rows skewed_df ! p @ t
                 \<and> (t = replicate (length (butlast (columns b))) Null
                    \<or> (\<exists>q \<in> set (rows small_df). t = ?w q))
                 \<and> cell (columns out) ''join_col'' row
                     = cell ?ca ''join_col'' (rows skewed_df ! p)"
  proof
    fix row assume "row \<in> set (rows out)"
    from ro [OF this] obtain p t where p: "p < length (rows skewed_df)"
      and row: "row = salted_key en (cell ?ca ''join_col'' (rows skewed_df ! p)) (?ix p)
                     # rows skewed_df ! p @ t"
      and t: "t = replicate (length ?cb') Null \<or> (\<exists>q \<in> set (rows small_df). t = ?w q)"
      by blast
    from p have l: "length (rows skewed_df ! p) = length ?ca" by (intro la) simp
    have "cell (?ca @ ?cb') ''join_col'' (rows skewed_df ! p @ t)
            = cell ?ca ''join_col'' (rows skewed_df ! p)"
      using l assms(2) by (rule cell_append_left)
    then have c: "cell (columns out) ''join_col'' row = cell ?ca ''join_col'' (rows skewed_df ! p)"
      unfolding co row by (simp add: cell_Cons)
    from p row t c show "\<exists>p t.
                 p < length (rows skewed_df)
                 \<and> row = salted_key en (cell ?ca ''join_col'' (rows skewed_df ! p)) (?ix p)
                           # rows skewed_df ! p @ t
                 \<and> (t = replicate (length (butlast (columns b))) Null
                    \<or> (\<exists>q \<in> set (rows small_df). t = ?w q))
                 \<and> cell (columns out) ''join_col'' row
                     = cell ?ca ''join_col'' (rows skewed_df ! p)"
      unfolding bl by blast
  qed
  from b out cb 1 rb 5 2 3 4 6 show ?thesis by blast
qed

theorem small_side_drops_key_and_index_witness:
  "wf_df skewed_df_ex \<and> ''join_col'' \<in> set (columns skewed_df_ex)
   \<and> ''salted_col'' \<notin> set (columns skewed_df_ex)
   \<and> wf_df small_df_ex \<and> ''join_col'' \<in> set (columns small_df_ex)
   \<and> ''salted_col'' \<notin> set (columns small_df_ex) \<and> ''id'' \<notin> set (columns small_df_ex)
   \<and> castable (key_type skewed_df_ex) \<and> castable (key_type small_df_ex)
   \<and> (\<exists>b out.
         small_df_salted engine_ex 10 small_df_ex = Inr b
         \<and> salted_join_df engine_ex 123 10 skewed_df_ex small_df_ex = Inr out
         \<and> columns b = [''number_col'', ''salted_col'']
         \<and> (\<forall>r \<in> set (rows b). length r = 2)
         \<and> count_list (columns out) ''join_col'' = 1)"
proof -
  note a = skewed_df_ex_ok and b = small_df_ex_ok
  have c: "castable (key_type skewed_df_ex)" "castable (key_type small_df_ex)"
    by (simp_all add: key_type_ex)
  from small_side_drops_key_and_index [OF a b c, of engine_ex 10 123]
  obtain b' out where "small_df_salted engine_ex 10 small_df_ex = Inr b'"
    "salted_join_df engine_ex 123 10 skewed_df_ex small_df_ex = Inr out"
    "columns b' = filter (\<lambda>c. c \<noteq> ''join_col'') (columns small_df_ex) @ [''salted_col'']"
    "\<forall>r \<in> set (rows b'). length r = length (columns b')"
    "count_list (columns out) ''join_col'' = 1"
    by blast
  moreover have "filter (\<lambda>c. c \<noteq> ''join_col'') (columns small_df_ex) @ [''salted_col'']
                 = [''number_col'', ''salted_col'']"
    by (simp add: small_df_ex_def)
  ultimately show ?thesis using a b c by auto
qed

end
